theory Spec2Isabelle
  imports Complex_Main "HOL-Library.Word" "HOL-Library.Signed_Division"
begin

section \<open>Data model\<close>

text \<open>
  The development follows \<^verbatim>\<open>src/gdfmm.cc\<close>. A C++ \<^verbatim>\<open>float\<close> is modelled by a
  real number: arithmetic is exact, and rounding, NaN and the infinities are outside the
  model. A C++ \<^verbatim>\<open>int\<close> is an unbounded integer (no image is large enough for an index
  to overflow). A \<^verbatim>\<open>cv::Mat\<close> is a record of its header fields and an accessor
  \<open>pixel M y x\<close> for \<^verbatim>\<open>M.at<T>(y, x)\<close>; the code reads and writes inside the bounds only.
\<close>

type_synonym float = real

type_synonym Point = "int \<times> int"  \<comment> \<open>\<open>(x, y)\<close>\<close>

type_synonym Vec3f = "float \<times> float \<times> float"

type_synonym Vec3b = "8 word \<times> 8 word \<times> 8 word"

record 'a Mat =
  rows :: int
  cols :: int
  channels :: int
  pixel :: "int \<Rightarrow> int \<Rightarrow> 'a"

definition ch0 :: "'a \<times> 'a \<times> 'a \<Rightarrow> 'a" where
  "ch0 v = fst v"

definition ch1 :: "'a \<times> 'a \<times> 'a \<Rightarrow> 'a" where
  "ch1 v = fst (snd v)"

definition ch2 :: "'a \<times> 'a \<times> 'a \<Rightarrow> 'a" where
  "ch2 v = snd (snd v)"

section \<open>Speed function\<close>

text \<open>
  The loop of \<^verbatim>\<open>InPaintBase\<close> that fills \<^verbatim>\<open>rgbGradientStrength\<close> from the two
  Sobel derivative images: per channel, the sum of the two squares.
\<close>

definition rgbGradientStrength :: "Vec3f Mat \<Rightarrow> Vec3f Mat \<Rightarrow> Vec3b Mat \<Rightarrow> Vec3f Mat" where
  "rgbGradientStrength rgbGradientX rgbGradientY rgbImage =
     \<lparr>rows = rows rgbImage, cols = cols rgbImage, channels = 3,
      pixel = (\<lambda>y x.
        (ch0 (pixel rgbGradientX y x) * ch0 (pixel rgbGradientX y x) +
           ch0 (pixel rgbGradientY y x) * ch0 (pixel rgbGradientY y x),
         ch1 (pixel rgbGradientX y x) * ch1 (pixel rgbGradientX y x) +
           ch1 (pixel rgbGradientY y x) * ch1 (pixel rgbGradientY y x),
         ch2 (pixel rgbGradientX y x) * ch2 (pixel rgbGradientX y x) +
           ch2 (pixel rgbGradientY y x) * ch2 (pixel rgbGradientY y x)))\<rparr>"

definition ComputeSpeed :: "Vec3f Mat \<Rightarrow> Point \<Rightarrow> float" where
  "ComputeSpeed gradientStrength position =
     - 1 / (1 +
        ch0 (pixel gradientStrength (snd position) (fst position)) +
        ch1 (pixel gradientStrength (snd position) (fst position)) +
        ch2 (pixel gradientStrength (snd position) (fst position)))"

section \<open>Errors and collaborators\<close>

text \<open>
  \<^verbatim>\<open>throw std::runtime_error(msg)\<close> and the \<^verbatim>\<open>CHECK(expr)\<close> macro, which throws the
  C string \<^verbatim>\<open>"Failed expression: " #expr "\n"\<close>.
\<close>

datatype error = runtime_error string | CHECK string

definition too_few_known_values :: string where
  "too_few_known_values =
     ''Too few known values. '' @
     ''Try densifying your depth image first, '' @
     ''or increasing the window size.''"

text \<open>
  The object state of class \<^verbatim>\<open>GDFMM\<close>. The two exponential caches are declared in the
  header \<^verbatim>\<open>gdfmm/gdfmm.h\<close>, which is not part of the sources at hand: they are fields of
  function type, read as \<^verbatim>\<open>distExpCache_(k)\<close> and \<^verbatim>\<open>colorExpCache_(k)\<close>.
\<close>

record GDFMM =
  distExpCache :: "int \<Rightarrow> float"
  colorExpCache :: "int \<Rightarrow> float"
  windowSize :: int
  blurSigma :: float

text \<open>
  The library routines the code calls: OpenCV's \<^verbatim>\<open>GaussianBlur\<close> and \<^verbatim>\<open>Sobel\<close>, and
  Eigen's \<^verbatim>\<open>ldlt().solve\<close> on a 4x4 system. They are parameters of the model.
\<close>

record Library =
  GaussianBlur :: "Vec3b Mat \<Rightarrow> float \<Rightarrow> float \<Rightarrow> Vec3b Mat"
  Sobel :: "Vec3b Mat \<Rightarrow> int \<Rightarrow> int \<Rightarrow> int \<Rightarrow> Vec3f Mat"
  ldlt_solve :: "float list list \<Rightarrow> float list \<Rightarrow> float list"

text \<open>
  Modelled from the spec: the exponential cache of the missing header,
  \<open>E(k) = exp(-k\<^sup>2 / (2 \<sigma>\<^sup>2))\<close> for \<open>|k| \<le> maxAbsInput\<close> (the spec leaves the other
  arguments undefined; the code never passes one).
\<close>

definition ExpCache :: "float \<Rightarrow> int \<Rightarrow> int \<Rightarrow> float" where
  "ExpCache sigma maxAbsInput k = exp (- (real_of_int (k * k)) / (2 * sigma * sigma))"

text \<open>The constructor \<^verbatim>\<open>GDFMM::GDFMM\<close>.\<close>

definition GDFMM_new :: "float \<Rightarrow> float \<Rightarrow> float \<Rightarrow> int \<Rightarrow> GDFMM" where
  "GDFMM_new sigmaDistance sigmaColor blurSigma' windowSize' =
     \<lparr>distExpCache = ExpCache sigmaDistance windowSize',
      colorExpCache = ExpCache sigmaColor 255,
      windowSize = windowSize',
      blurSigma = blurSigma'\<rparr>"

section \<open>Depth gradient probe and bilateral predictor\<close>

definition ComputeDepthGradient :: "float Mat \<Rightarrow> int \<Rightarrow> int \<Rightarrow> float \<times> float" where
  "ComputeDepthGradient depthImage x y =
     (let (dx, wx) =
            (if x > 0 \<and> pixel depthImage y x \<noteq> 0 \<and> pixel depthImage y (x - 1) \<noteq> 0
             then (pixel depthImage y x - pixel depthImage y (x - 1), 1::int) else (0, 0));
          (dx, wx) =
            (if x + 1 < cols depthImage \<and> pixel depthImage y (x + 1) \<noteq> 0 \<and> pixel depthImage y x \<noteq> 0
             then (dx + (pixel depthImage y (x + 1) - pixel depthImage y x), wx + 1) else (dx, wx));
          (dy, wy) =
            (if y > 0 \<and> pixel depthImage y x \<noteq> 0 \<and> pixel depthImage (y - 1) x \<noteq> 0
             then (pixel depthImage y x - pixel depthImage (y - 1) x, 1::int) else (0, 0));
          (dy, wy) =
            (if y + 1 < rows depthImage \<and> pixel depthImage (y + 1) x \<noteq> 0 \<and> pixel depthImage y x \<noteq> 0
             then (dy + (pixel depthImage (y + 1) x - pixel depthImage y x), wy + 1) else (dy, wy))
      in ((if wx > 0 then dx / real_of_int wx else 0),
          (if wy > 0 then dy / real_of_int wy else 0)))"

definition BilateralWeight :: "GDFMM \<Rightarrow> Point \<Rightarrow> Point \<Rightarrow> Vec3b Mat \<Rightarrow> float" where
  "BilateralWeight g p1 p2 rgbImage =
     (let c1 = pixel rgbImage (snd p1) (fst p1);
          c2 = pixel rgbImage (snd p2) (fst p2)
      in distExpCache g (fst p2 - fst p1) *
         distExpCache g (snd p2 - snd p1) *
         colorExpCache g (uint (ch0 c1) - uint (ch0 c2)) *
         colorExpCache g (uint (ch1 c1) - uint (ch1 c2)) *
         colorExpCache g (uint (ch2 c1) - uint (ch2 c2)))"

text \<open>
  The body of the two nested window loops of \<^verbatim>\<open>PredictDepth\<close>, on the accumulator
  \<open>(sumWeights, sumValues, count)\<close>. The gradient term is computed and, as in the
  source, not used: the addend \<^verbatim>\<open>+ gradientTerm\<close> is commented out.
\<close>

definition PredictDepth_body ::
  "GDFMM \<Rightarrow> float Mat \<Rightarrow> Vec3b Mat \<Rightarrow> int \<Rightarrow> int \<Rightarrow> int \<Rightarrow> int \<Rightarrow>
   float \<times> float \<times> int \<Rightarrow> float \<times> float \<times> int" where
  "PredictDepth_body g depthImage rgbImage x y n m acc =
     (case acc of (sumWeights, sumValues, count) \<Rightarrow>
        let depth = pixel depthImage n m in
        if depth = 0 then acc
        else
          let weight = max (1 / 1000000) (BilateralWeight g (x, y) (m, n) rgbImage);
              (gX, gY) = ComputeDepthGradient depthImage m n;
              gradientTerm = gX * real_of_int (x - m) + gY * real_of_int (y - n)
          in (sumWeights + weight, sumValues + weight * depth, count + 1))"

text \<open>
  The local variables \<open>(sumWeights, sumValues, count)\<close> of \<^verbatim>\<open>PredictDepth\<close> after the
  two loops over the clipped window, and the function itself.
\<close>

definition PredictDepth_sums ::
  "GDFMM \<Rightarrow> float Mat \<Rightarrow> Vec3b Mat \<Rightarrow> int \<Rightarrow> int \<Rightarrow> float \<times> float \<times> int" where
  "PredictDepth_sums g depthImage rgbImage x y =
     (let windowRadius = windowSize g sdiv 2
      in foldl (\<lambda>acc n.
             foldl (\<lambda>acc m. PredictDepth_body g depthImage rgbImage x y n m acc) acc
               [max 0 (x - windowRadius) .. min (cols depthImage - 1) (x + windowRadius)])
           (0, 0, 0)
           [max 0 (y - windowRadius) .. min (rows depthImage - 1) (y + windowRadius)])"

definition PredictDepth :: "GDFMM \<Rightarrow> float Mat \<Rightarrow> Vec3b Mat \<Rightarrow> int \<Rightarrow> int \<Rightarrow> float" where
  "PredictDepth g depthImage rgbImage x y =
     (case PredictDepth_sums g depthImage rgbImage x y of
        (sumWeights, sumValues, count) \<Rightarrow>
          if count \<le> 3 then 0 else sumValues / sumWeights)"

subsection \<open>The bilateral mean, as the specification words it\<close>

text \<open>
  The pixels of the clipped window of radius \<open>windowSize / 2\<close> around \<open>(x, y)\<close>, the known
  ones among them, the bilateral weight floored at \<open>1e-6\<close>, and the weighted mean of the
  known depths, with 0 when fewer than 4 pixels are known. No gradient term.
\<close>

definition window :: "GDFMM \<Rightarrow> 'a Mat \<Rightarrow> int \<Rightarrow> int \<Rightarrow> Point list" where
  "window g M x y =
     concat (map (\<lambda>n. map (\<lambda>m. (m, n))
         [max 0 (x - windowSize g sdiv 2) .. min (cols M - 1) (x + windowSize g sdiv 2)])
       [max 0 (y - windowSize g sdiv 2) .. min (rows M - 1) (y + windowSize g sdiv 2)])"

definition known_window :: "GDFMM \<Rightarrow> float Mat \<Rightarrow> int \<Rightarrow> int \<Rightarrow> Point list" where
  "known_window g D x y = filter (\<lambda>p. pixel D (snd p) (fst p) \<noteq> 0) (window g D x y)"

definition floored_weight :: "GDFMM \<Rightarrow> Vec3b Mat \<Rightarrow> int \<Rightarrow> int \<Rightarrow> Point \<Rightarrow> float" where
  "floored_weight g C x y p = max (1 / 1000000) (BilateralWeight g (x, y) p C)"

definition bilateral_mean :: "GDFMM \<Rightarrow> float Mat \<Rightarrow> Vec3b Mat \<Rightarrow> int \<Rightarrow> int \<Rightarrow> float" where
  "bilateral_mean g D C x y =
     (if length (known_window g D x y) < 4 then 0
      else (\<Sum>p \<leftarrow> known_window g D x y. floored_weight g C x y p * pixel D (snd p) (fst p)) /
           (\<Sum>p \<leftarrow> known_window g D x y. floored_weight g C x y p))"

section \<open>The least-squares predictor\<close>

text \<open>
  Eigen arrays are lists of rows; a row of \<^verbatim>\<open>X\<close> has 4 entries. The two scans of the
  window (the count and the fill of \<^verbatim>\<open>X\<close> and \<^verbatim>\<open>Y\<close>) visit the same known pixels in
  the same order. \<open>PredictDepth2_locals\<close> is the body of \<^verbatim>\<open>PredictDepth2\<close> from the fill
  of \<^verbatim>\<open>X\<close> to the test vector, with the local variables of that point as a record;
  each \<^verbatim>\<open>let\<close> is one statement of the source, in its order. The range clamp by
  \<^verbatim>\<open>truncation\<close> is commented out in the source.
\<close>

definition colwise_mean :: "float list list \<Rightarrow> float list" where
  "colwise_mean X = map (\<lambda>j. (\<Sum>row \<leftarrow> X. row ! j) / real (length X)) [0 ..< 4]"

definition known_pixels :: "float Mat \<Rightarrow> int \<Rightarrow> int \<Rightarrow> int \<Rightarrow> int \<Rightarrow> Point list" where
  "known_pixels depthImage lowerX upperX lowerY upperY =
     concat (map (\<lambda>n.
         concat (map (\<lambda>m. if pixel depthImage n m = 0 then [] else [(m, n)]) [lowerX .. upperX]))
       [lowerY .. upperY])"

record Locals2 =
  loc_X :: "float list list"
  loc_Y :: "float list"
  loc_mX :: "float list"
  loc_mY :: float
  loc_sX :: "float list"
  loc_constant :: float
  loc_beta :: "float list"
  loc_test :: "float list"

definition PredictDepth2_locals ::
  "GDFMM \<Rightarrow> Library \<Rightarrow> float Mat \<Rightarrow> Vec3b Mat \<Rightarrow> int \<Rightarrow> int \<Rightarrow> float \<Rightarrow> float \<Rightarrow> float \<Rightarrow> Locals2" where
  "PredictDepth2_locals g lib depthImage rgbImage x y epsilon constant0 truncation =
     (let windowRadius = windowSize g sdiv 2;
          lowerY = max 0 (y - windowRadius);
          lowerX = max 0 (x - windowRadius);
          upperY = min (rows depthImage - 1) (y + windowRadius);
          upperX = min (cols depthImage - 1) (x + windowRadius);
          K = known_pixels depthImage lowerX upperX lowerY upperY;
          X = map (\<lambda>p. [real (unat (ch0 (pixel rgbImage (snd p) (fst p)))),
                         real (unat (ch1 (pixel rgbImage (snd p) (fst p)))),
                         real (unat (ch2 (pixel rgbImage (snd p) (fst p)))),
                         0]) K;
          Y = map (\<lambda>p. pixel depthImage (snd p) (fst p)) K;
          mX = colwise_mean X;
          mY = sum_list Y / real (length Y);
          X = map (\<lambda>row. map2 (-) row mX) X;
          Y = map (\<lambda>v. v - mY) Y;
          sX = map sqrt (colwise_mean (map (\<lambda>row. map2 (*) row row) X));
          sX = map (max (1 / 100000)) sX;
          sX = sX[3 := 1];
          X = map (\<lambda>row. row[3 := constant0]) X;
          constant = max (1 / 100000) constant0;
          X = map (\<lambda>row. map2 (/) row sX) X;
          cov = map (\<lambda>i. map (\<lambda>j. (\<Sum>row \<leftarrow> X. row ! i * row ! j) + (if i = j then epsilon else 0))
                  [0 ..< 4]) [0 ..< 4];
          xy = map (\<lambda>j. (\<Sum>ry \<leftarrow> zip X Y. fst ry ! j * snd ry)) [0 ..< 4];
          beta = ldlt_solve lib cov xy;
          test = [real (unat (ch0 (pixel rgbImage y x))),
                  real (unat (ch1 (pixel rgbImage y x))),
                  real (unat (ch2 (pixel rgbImage y x))),
                  0];
          test = map2 (/) (map2 (-) test mX) sX;
          test = test[3 := constant]
      in \<lparr>loc_X = X, loc_Y = Y, loc_mX = mX, loc_mY = mY, loc_sX = sX, loc_constant = constant,
          loc_beta = beta, loc_test = test\<rparr>)"

definition PredictDepth2 ::
  "GDFMM \<Rightarrow> Library \<Rightarrow> float Mat \<Rightarrow> Vec3b Mat \<Rightarrow> int \<Rightarrow> int \<Rightarrow> float \<Rightarrow> float \<Rightarrow> float \<Rightarrow> float" where
  "PredictDepth2 g lib depthImage rgbImage x y epsilon constant0 truncation =
     (let windowRadius = windowSize g sdiv 2;
          lowerY = max 0 (y - windowRadius);
          lowerX = max 0 (x - windowRadius);
          upperY = min (rows depthImage - 1) (y + windowRadius);
          upperX = min (cols depthImage - 1) (x + windowRadius);
          num_known = int (length (known_pixels depthImage lowerX upperX lowerY upperY))
      in if num_known \<le> 3 then 0
         else
           let L = PredictDepth2_locals g lib depthImage rgbImage x y epsilon constant0 truncation;
               prediction = (\<Sum>i \<leftarrow> [0 ..< 4]. loc_beta L ! i * loc_test L ! i) + loc_mY L
           in prediction)"

section \<open>The narrow band\<close>

text \<open>
  \<^verbatim>\<open>std::priority_queue\<close> with the comparison \<^verbatim>\<open>p1.first < p2.first\<close>: a bag of entries,
  kept here in the order of insertion. \<^verbatim>\<open>top()\<close> is an entry that no other entry exceeds;
  which one among several of equal priority is left to the library, so the model takes
  the choice from an oracle: the number \<open>k\<close> picks among the candidates.
\<close>

type_synonym BandItem = "float \<times> Point"

definition pq_top :: "nat \<Rightarrow> BandItem list \<Rightarrow> BandItem" where
  "pq_top k narrowBand =
     (let candidates = filter (\<lambda>e. list_all (\<lambda>e'. \<not> fst e < fst e') narrowBand) narrowBand
      in candidates ! (k mod length candidates))"

definition pq_pop :: "nat \<Rightarrow> BandItem list \<Rightarrow> BandItem list" where
  "pq_pop k narrowBand = remove1 (pq_top k narrowBand) narrowBand"

definition emplace :: "float \<Rightarrow> Point \<Rightarrow> BandItem list \<Rightarrow> BandItem list" where
  "emplace s p narrowBand = narrowBand @ [(s, p)]"

section \<open>The propagation engine\<close>

definition set_pixel :: "'a Mat \<Rightarrow> int \<Rightarrow> int \<Rightarrow> 'a \<Rightarrow> 'a Mat" where
  "set_pixel M y x v = M\<lparr>pixel := (pixel M)(y := (pixel M y)(x := v))\<rparr>"

type_synonym PredictMethod = "float Mat \<Rightarrow> Vec3b Mat \<Rightarrow> int \<Rightarrow> int \<Rightarrow> float"

text \<open>
  The body of the loop over the four neighbours, for the popped entry
  \<open>(speed, position)\<close> and the offset \<open>d\<close>, on the state \<open>(depthImage, narrowBand)\<close>.
\<close>

definition visit ::
  "PredictMethod \<Rightarrow> Vec3b Mat \<Rightarrow> Vec3f Mat \<Rightarrow> float \<Rightarrow> Point \<Rightarrow> Point \<Rightarrow>
   float Mat \<times> BandItem list \<Rightarrow> error + float Mat \<times> BandItem list" where
  "visit predict rgbImage gradientStrength speed position d st =
     (let depthImage = fst st; narrowBand = snd st;
          neighbour = (fst position + fst d, snd position + snd d)
      in if \<not> (fst neighbour \<ge> 0 \<and> snd neighbour \<ge> 0 \<and>
                fst neighbour < cols depthImage \<and> snd neighbour < rows depthImage)
         then Inr st
         else if pixel depthImage (snd neighbour) (fst neighbour) = 0 then
           let prediction = predict depthImage rgbImage (fst neighbour) (snd neighbour);
               depthImage' = set_pixel depthImage (snd neighbour) (fst neighbour) prediction
           in if prediction \<noteq> 0
              then Inr (depthImage', emplace (ComputeSpeed gradientStrength neighbour) neighbour narrowBand)
              else if speed < - 20
                then Inl (runtime_error too_few_known_values)
                else Inr (depthImage', emplace (speed - 1) position narrowBand)
         else Inr st)"

definition neighbours :: "Point list" where
  "neighbours = [(0, 1), (1, 0), (- 1, 0), (0, - 1)]"

fun for_each ::
  "('d \<Rightarrow> 's \<Rightarrow> error + 's) \<Rightarrow> 'd list \<Rightarrow> 's \<Rightarrow> error + 's" where
  "for_each f [] st = Inr st"
| "for_each f (d # ds) st = (case f d st of Inl e \<Rightarrow> Inl e | Inr st' \<Rightarrow> for_each f ds st')"

text \<open>One turn of the \<^verbatim>\<open>while\<close> loop: pop the top entry, visit its four neighbours.\<close>

definition turn ::
  "PredictMethod \<Rightarrow> Vec3b Mat \<Rightarrow> Vec3f Mat \<Rightarrow> nat \<Rightarrow>
   float Mat \<times> BandItem list \<Rightarrow> error + float Mat \<times> BandItem list" where
  "turn predict rgbImage gradientStrength k st =
     (let speed = fst (pq_top k (snd st)); position = snd (pq_top k (snd st))
      in for_each (visit predict rgbImage gradientStrength speed position) neighbours
           (fst st, pq_pop k (snd st)))"

text \<open>
  The \<^verbatim>\<open>while (narrowBand.size() > 0)\<close> loop. The oracle \<open>tie\<close> gives, for the
  \<open>i\<close>-th turn, the choice among the top entries of equal priority. A \<^verbatim>\<open>throw\<close> inside
  a turn ends the loop with the error.
\<close>

function propagate ::
  "PredictMethod \<Rightarrow> Vec3b Mat \<Rightarrow> Vec3f Mat \<Rightarrow> (nat \<Rightarrow> nat) \<Rightarrow> nat \<Rightarrow>
   float Mat \<times> BandItem list \<Rightarrow> error + float Mat" where
  "propagate predict rgbImage gradientStrength tie i st =
     (if length (snd st) > 0 then
        (case turn predict rgbImage gradientStrength (tie i) st of
           Inl e \<Rightarrow> Inl e
         | Inr st' \<Rightarrow> propagate predict rgbImage gradientStrength tie (Suc i) st')
      else Inr (fst st))"
  by pat_completeness auto

text \<open>
  The state of the loop after \<open>n\<close> turns (the last state, once the band is empty): the
  states the loop goes through.
\<close>

fun run ::
  "PredictMethod \<Rightarrow> Vec3b Mat \<Rightarrow> Vec3f Mat \<Rightarrow> (nat \<Rightarrow> nat) \<Rightarrow> nat \<Rightarrow>
   float Mat \<times> BandItem list \<Rightarrow> error + float Mat \<times> BandItem list" where
  "run predict rgbImage gradientStrength tie 0 st = Inr st"
| "run predict rgbImage gradientStrength tie (Suc n) st =
     (case run predict rgbImage gradientStrength tie n st of
        Inl e \<Rightarrow> Inl e
      | Inr st' \<Rightarrow>
          if length (snd st') > 0 then turn predict rgbImage gradientStrength (tie n) st'
          else Inr st')"

section \<open>The entry points\<close>

text \<open>
  \<^verbatim>\<open>convertTo(_, CV_32F)\<close> on a 16-bit depth image (every 16-bit value is a \<^verbatim>\<open>float\<close>),
  and \<^verbatim>\<open>convertTo(_, CV_16U)\<close>, which is OpenCV's \<^verbatim>\<open>saturate_cast<ushort>\<close>: round to the
  nearest integer, ties to even, then clamp to \<open>0 .. 65535\<close>.
\<close>

definition convertTo_32F :: "16 word Mat \<Rightarrow> float Mat" where
  "convertTo_32F M =
     \<lparr>rows = rows M, cols = cols M, channels = channels M,
      pixel = (\<lambda>y x. real (unat (pixel M y x)))\<rparr>"

definition cvRound :: "float \<Rightarrow> int" where
  "cvRound v =
     (if v - real_of_int \<lfloor>v\<rfloor> < 1 / 2 then \<lfloor>v\<rfloor>
      else if v - real_of_int \<lfloor>v\<rfloor> > 1 / 2 then \<lfloor>v\<rfloor> + 1
      else if even \<lfloor>v\<rfloor> then \<lfloor>v\<rfloor> else \<lfloor>v\<rfloor> + 1)"

definition saturate_cast_ushort :: "float \<Rightarrow> 16 word" where
  "saturate_cast_ushort v = word_of_int (max 0 (min 65535 (cvRound v)))"

definition convertTo_16U :: "float Mat \<Rightarrow> 16 word Mat" where
  "convertTo_16U M =
     \<lparr>rows = rows M, cols = cols M, channels = channels M,
      pixel = (\<lambda>y x. saturate_cast_ushort (pixel M y x))\<rparr>"

text \<open>The two loops that seed the narrow band with every known pixel, at priority 0.\<close>

definition initial_band :: "float Mat \<Rightarrow> BandItem list" where
  "initial_band depthImage =
     foldl (\<lambda>narrowBand y.
         foldl (\<lambda>narrowBand x.
             if pixel depthImage y x \<noteq> 0 then emplace 0 (x, y) narrowBand else narrowBand)
           narrowBand [0 .. cols depthImage - 1])
       [] [0 .. rows depthImage - 1]"

text \<open>
  \<^verbatim>\<open>GDFMM::InPaintBase\<close>. The \<^verbatim>\<open>output\<close> pointer only selects where the converted image
  is stored; both branches return the same image, so the model has no such argument.
\<close>

definition InPaintBase ::
  "GDFMM \<Rightarrow> Library \<Rightarrow> (nat \<Rightarrow> nat) \<Rightarrow> 16 word Mat \<Rightarrow> Vec3b Mat \<Rightarrow> PredictMethod \<Rightarrow>
   error + 16 word Mat" where
  "InPaintBase g lib tie depthImageOriginal rgbImage predict =
     (if cols rgbImage \<noteq> cols depthImageOriginal \<or> rows rgbImage \<noteq> rows depthImageOriginal
      then Inl (runtime_error ''Images must have same size.'')
      else if \<not> channels depthImageOriginal = 1
      then Inl (CHECK ''Failed expression: depthImageOriginal.channels() == 1\<newline>'')
      else if \<not> channels rgbImage = 3
      then Inl (CHECK ''Failed expression: rgbImage.channels() == 3\<newline>'')
      else
        let depthImage = convertTo_32F depthImageOriginal;
            tmp = GaussianBlur lib rgbImage (blurSigma g) (blurSigma g);
            rgbGradientX = Sobel lib tmp 1 0 3;
            rgbGradientY = Sobel lib tmp 0 1 3;
            gradientStrength = rgbGradientStrength rgbGradientX rgbGradientY rgbImage;
            narrowBand = initial_band depthImage
        in case propagate predict rgbImage gradientStrength tie 0 (depthImage, narrowBand) of
             Inl e \<Rightarrow> Inl e
           | Inr depthImage' \<Rightarrow> Inr (convertTo_16U depthImage'))"

definition InPaint ::
  "GDFMM \<Rightarrow> Library \<Rightarrow> (nat \<Rightarrow> nat) \<Rightarrow> 16 word Mat \<Rightarrow> Vec3b Mat \<Rightarrow> error + 16 word Mat" where
  "InPaint g lib tie depthImage rgbImageOriginal =
     InPaintBase g lib tie depthImage rgbImageOriginal (PredictDepth g)"

definition InPaint2 ::
  "GDFMM \<Rightarrow> Library \<Rightarrow> (nat \<Rightarrow> nat) \<Rightarrow> 16 word Mat \<Rightarrow> Vec3b Mat \<Rightarrow> float \<Rightarrow> float \<Rightarrow> float \<Rightarrow>
   error + 16 word Mat" where
  "InPaint2 g lib tie depthImage rgbImageOriginal epsilon constant0 truncation =
     InPaintBase g lib tie depthImage rgbImageOriginal
       (\<lambda>dI rgbI x y. PredictDepth2 g lib dI rgbI x y epsilon constant0 truncation)"

section \<open>Concrete inputs\<close>

text \<open>
  Small inputs on which the definitions are evaluated: an object with window size 3 and
  one with window size 5 (their caches are the rational table \<open>1 / (1 + k\<^sup>2)\<close>), a library
  whose blur is the identity and whose Sobel derivative is zero, constant colour and
  gradient images, and three depth images.
\<close>

definition flatField :: "int \<Rightarrow> int \<Rightarrow> Vec3f Mat" where
  "flatField r c = \<lparr>rows = r, cols = c, channels = 3, pixel = (\<lambda>y x. (0, 0, 0))\<rparr>"

definition grayImage :: "int \<Rightarrow> int \<Rightarrow> Vec3b Mat" where
  "grayImage r c = \<lparr>rows = r, cols = c, channels = 3, pixel = (\<lambda>y x. (128, 128, 128))\<rparr>"

definition hat :: "int \<Rightarrow> float" where
  "hat k = 1 / (1 + real_of_int (k * k))"

definition gdfmm3 :: GDFMM where
  "gdfmm3 = \<lparr>distExpCache = hat, colorExpCache = hat, windowSize = 3, blurSigma = 1\<rparr>"

definition gdfmm5 :: GDFMM where
  "gdfmm5 = \<lparr>distExpCache = hat, colorExpCache = hat, windowSize = 5, blurSigma = 1\<rparr>"

definition lib0 :: Library where
  "lib0 = \<lparr>GaussianBlur = (\<lambda>im sx sy. im),
            Sobel = (\<lambda>im dx dy ksize. flatField (rows im) (cols im)),
            ldlt_solve = (\<lambda>A b. b)\<rparr>"

definition first_tie :: "nat \<Rightarrow> nat" where
  "first_tie i = 0"

definition depth16 :: "int \<Rightarrow> int \<Rightarrow> (int \<Rightarrow> int \<Rightarrow> 16 word) \<Rightarrow> 16 word Mat" where
  "depth16 r c f = \<lparr>rows = r, cols = c, channels = 1, pixel = f\<rparr>"

definition one_seed :: "int \<Rightarrow> int \<Rightarrow> 16 word" where
  "one_seed y x = (if x = 0 \<and> y = 0 then 100 else 0)"

definition one_hole :: "int \<Rightarrow> int \<Rightarrow> 16 word" where
  "one_hole y x = (if x = 2 \<and> y = 0 then 0 else 100)"

section \<open>Notions used in the proofs\<close>

text \<open>
  The measure for the termination of the loop. Every turn removes one entry and adds at most four deferred entries one level lower
  (none below level 0, where a deferral throws), or fills pixels. The weight \<open>5 ^ level\<close>
  of the band plus a charge for every unknown pixel decreases with each turn.
\<close>

definition level :: "float \<Rightarrow> nat" where
  "level s = nat (\<lceil>s\<rceil> + 21)"

definition in_bounds :: "'a Mat \<Rightarrow> Point set" where
  "in_bounds M = {0 ..< cols M} \<times> {0 ..< rows M}"

definition unknown :: "float Mat \<Rightarrow> Point set" where
  "unknown D = {p \<in> in_bounds D. pixel D (snd p) (fst p) = 0}"

definition cap :: "Vec3f Mat \<Rightarrow> float Mat \<Rightarrow> nat" where
  "cap G D = (\<Sum>p \<in> in_bounds D. 5 ^ level (ComputeSpeed G p))"

definition band_weight :: "BandItem list \<Rightarrow> nat" where
  "band_weight h = sum_list (map (\<lambda>e. 5 ^ level (fst e)) h)"

definition effort :: "Vec3f Mat \<Rightarrow> float Mat \<times> BandItem list \<Rightarrow> nat" where
  "effort G st = band_weight (snd st) + card (unknown (fst st)) * (cap G (fst st) + 1)"

definition slack :: "float \<Rightarrow> nat" where
  "slack s = (if s < - 20 then 0 else 5 ^ (level s - 1))"

text \<open>
  The accumulator of the window loops after the known pixels \<open>K\<close> have been added to it.
\<close>

definition tally :: "GDFMM \<Rightarrow> float Mat \<Rightarrow> Vec3b Mat \<Rightarrow> int \<Rightarrow> int \<Rightarrow> Point list \<Rightarrow>
    float \<times> float \<times> int \<Rightarrow> float \<times> float \<times> int" where
  "tally g D C x y K acc =
     (fst acc + (\<Sum>p \<leftarrow> K. floored_weight g C x y p),
      fst (snd acc) + (\<Sum>p \<leftarrow> K. floored_weight g C x y p * pixel D (snd p) (fst p)),
      snd (snd acc) + int (length K))"

text \<open>
  Bands without a positive priority; the pixels in the order of the seeding loops; depth
  images whose known pixels are at 1 or above.
\<close>

definition nonpos :: "BandItem list \<Rightarrow> bool" where
  "nonpos h = list_all (\<lambda>e. fst e \<le> 0) h"

definition scan :: "'a Mat \<Rightarrow> Point list" where
  "scan M = concat (map (\<lambda>y. map (\<lambda>x. (x, y)) [0 .. cols M - 1]) [0 .. rows M - 1])"

definition sane :: "float Mat \<Rightarrow> bool" where
  "sane D = (\<forall>p \<in> in_bounds D. pixel D (snd p) (fst p) = 0 \<or> 1 \<le> pixel D (snd p) (fst p))"

text \<open>
  Between two turns every known pixel with an unknown neighbour inside the image has an
  entry in the band (\<open>cover\<close>). Inside a turn the popped pixel \<open>P\<close> is the exception, as
  long as its unknown neighbours are still to be visited (\<open>cover_mid\<close>).
\<close>

definition known :: "float Mat \<Rightarrow> Point set" where
  "known D = {p \<in> in_bounds D. pixel D (snd p) (fst p) \<noteq> 0}"

definition nbrs :: "Point \<Rightarrow> Point set" where
  "nbrs p = (\<lambda>d. (fst p + fst d, snd p + snd d)) ` set neighbours"

definition cover_mid :: "Point \<Rightarrow> Point set \<Rightarrow> float Mat \<times> BandItem list \<Rightarrow> bool" where
  "cover_mid P R st =
     (\<forall>p \<in> known (fst st). nbrs p \<inter> unknown (fst st) = {} \<or> p \<in> snd ` set (snd st) \<or>
        (p = P \<and> nbrs P \<inter> unknown (fst st) \<subseteq> R))"

definition cover :: "float Mat \<times> BandItem list \<Rightarrow> bool" where
  "cover st =
     (\<forall>p \<in> known (fst st). nbrs p \<inter> unknown (fst st) = {} \<or> p \<in> snd ` set (snd st))"


section \<open>Termination of the loop\<close>

lemma finite_in_bounds: "finite (in_bounds M)"
  by (simp add: in_bounds_def)

lemma finite_unknown: "finite (unknown D)"
  by (simp add: unknown_def finite_in_bounds)

lemma in_bounds_set_pixel: "in_bounds (set_pixel D y x v) = in_bounds D"
  by (simp add: in_bounds_def set_pixel_def)

lemma cap_set_pixel: "cap G (set_pixel D y x v) = cap G D"
  by (simp add: cap_def in_bounds_set_pixel)

lemma pixel_set_pixel:
  "pixel (set_pixel D y x v) y' x' = (if y' = y \<and> x' = x then v else pixel D y' x')"
  by (simp add: set_pixel_def)

lemma unknown_fill:
  assumes "(x, y) \<in> in_bounds D" "v \<noteq> 0"
  shows "unknown (set_pixel D y x v) = unknown D - {(x, y)}"
  using assms by (auto simp: unknown_def in_bounds_set_pixel pixel_set_pixel)

lemma unknown_defer:
  assumes "pixel D y x = 0"
  shows "unknown (set_pixel D y x 0) = unknown D"
  using assms by (auto simp: unknown_def in_bounds_set_pixel pixel_set_pixel)

lemma level_pred:
  assumes "\<not> s < - 20"
  shows "level (s - 1) = level s - 1 \<and> 0 < level s"
proof -
  have c: "- 20 \<le> \<lceil>s\<rceil>" using assms by (simp add: le_ceiling_iff)
  have "\<lceil>s - 1\<rceil> = \<lceil>s\<rceil> - 1" by simp
  then have "level (s - 1) = nat (\<lceil>s\<rceil> - 1 + 21)" by (simp only: level_def)
  moreover have "level s = nat (\<lceil>s\<rceil> + 21)" by (simp only: level_def)
  ultimately show ?thesis using c by linarith
qed

lemma cap_ge: "p \<in> in_bounds D \<Longrightarrow> 5 ^ level (ComputeSpeed G p) \<le> cap G D"
  unfolding cap_def by (rule member_le_sum) (simp_all add: finite_in_bounds)

lemma visit_effort:
  assumes "visit predict rgb G s P d st = Inr st'"
  shows "effort G st' \<le> effort G st + slack s"
proof -
  obtain D h where st: "st = (D, h)" by (cases st)
  let ?nx = "fst P + fst d" and ?ny = "snd P + snd d"
  show ?thesis
  proof (cases "(?nx, ?ny) \<in> in_bounds D \<and> pixel D ?ny ?nx = 0")
    case False
    then have "st' = st" using assms by (auto simp: visit_def st Let_def in_bounds_def split: if_splits)
    then show ?thesis by simp
  next
    case True
    let ?v = "predict D rgb ?nx ?ny"
    show ?thesis
    proof (cases "?v = 0")
      case False
      with True assms have st': "st' = (set_pixel D ?ny ?nx ?v, emplace (ComputeSpeed G (?nx, ?ny)) (?nx, ?ny) h)"
        by (auto simp: visit_def st Let_def in_bounds_def split: if_splits)
      have N: "(?nx, ?ny) \<in> unknown D" using True by (simp add: unknown_def)
      have u: "unknown (set_pixel D ?ny ?nx ?v) = unknown D - {(?nx, ?ny)}"
        using unknown_fill [of ?nx ?ny D ?v] True False by simp
      have c: "card (unknown D - {(?nx, ?ny)}) = card (unknown D) - 1" "0 < card (unknown D)"
        using N finite_unknown [of D] by (auto simp: card_gt_0_iff)
      have "5 ^ level (ComputeSpeed G (?nx, ?ny)) \<le> cap G D" using True cap_ge by blast
      then have "band_weight (emplace (ComputeSpeed G (?nx, ?ny)) (?nx, ?ny) h) + (card (unknown D) - 1) * (cap G D + 1)
          \<le> band_weight h + card (unknown D) * (cap G D + 1)"
        using c(2) by (cases "card (unknown D)") (simp_all add: band_weight_def emplace_def)
      then show ?thesis unfolding st' st effort_def fst_conv snd_conv u c cap_set_pixel by linarith
    next
      case v0: True
      with True assms have s: "\<not> s < - 20" and st': "st' = (set_pixel D ?ny ?nx 0, emplace (s - 1) P h)"
        by (auto simp: visit_def st Let_def in_bounds_def split: if_splits)
      have u: "unknown (set_pixel D ?ny ?nx 0) = unknown D"
        using True by (simp add: unknown_defer)
      show ?thesis using level_pred [OF s] s
        unfolding st' st effort_def fst_conv snd_conv u cap_set_pixel
        by (simp add: band_weight_def emplace_def slack_def)
    qed
  qed
qed

lemma for_each_effort:
  assumes "for_each (visit predict rgb G s P) ds st = Inr st'"
  shows "effort G st' \<le> effort G st + length ds * slack s"
  using assms
proof (induction ds arbitrary: st)
  case Nil
  then show ?case by simp
next
  case (Cons d ds)
  then obtain st1 where 1: "visit predict rgb G s P d st = Inr st1"
    and 2: "for_each (visit predict rgb G s P) ds st1 = Inr st'"
    by (auto split: sum.splits)
  from Cons.IH [OF 2] visit_effort [OF 1] show ?case by simp
qed

lemma pq_top_in: 
  assumes "h \<noteq> []" shows "pq_top k h \<in> set h"
proof -
  let ?c = "filter (\<lambda>e. list_all (\<lambda>e'. \<not> fst e < fst e') h) h"
  have "finite (fst ` set h)" "fst ` set h \<noteq> {}" using assms by simp_all
  then have "Max (fst ` set h) \<in> fst ` set h" by (rule Max_in)
  then obtain e where e: "e \<in> set h" "fst e = Max (fst ` set h)" by auto
  have "\<forall>e' \<in> set h. fst e' \<le> fst e" using e(2) by simp
  then have "e \<in> set ?c" using e(1) by (auto simp: list_all_iff)
  then have ne: "?c \<noteq> []" by (metis empty_iff list.set(1))
  then have "k mod length ?c < length ?c" by simp
  then have "?c ! (k mod length ?c) \<in> set ?c" by (rule nth_mem)
  moreover have "set ?c \<subseteq> set h" by (rule filter_is_subset)
  ultimately show ?thesis unfolding pq_top_def Let_def by (rule subsetD [rotated])
qed

lemma slack_less: "4 * slack s < 5 ^ level s"
proof (cases "s < - 20")
  case True then show ?thesis by (simp add: slack_def)
next
  case False
  from level_pred [OF False] obtain l where "level s = Suc l" by (cases "level s") auto
  then show ?thesis using False by (simp add: slack_def)
qed

lemma turn_effort:
  assumes "snd st \<noteq> []" "turn predict rgb G k st = Inr st'"
  shows "effort G st' < effort G st"
proof -
  let ?e = "pq_top k (snd st)"
  have "effort G st' \<le> effort G (fst st, pq_pop k (snd st)) + length neighbours * slack (fst ?e)"
    using assms(2) unfolding turn_def Let_def by (rule for_each_effort)
  moreover have "band_weight (snd st) = 5 ^ level (fst ?e) + band_weight (pq_pop k (snd st))"
    unfolding band_weight_def pq_pop_def
    using pq_top_in [OF assms(1)] by (rule sum_list_map_remove1)
  ultimately show ?thesis using slack_less [of "fst ?e"]
    by (simp add: effort_def neighbours_def)
qed

termination propagate
  by (relation "measure (\<lambda>(predict, rgb, G, tie, i, st). effort G st)")
     (auto intro: turn_effort)

declare propagate.simps [simp del]

lemma propagate_done: "snd st = [] \<Longrightarrow> propagate predict rgb G tie i st = Inr (fst st)"
  by (subst propagate.simps) simp

lemma propagate_abort:
  assumes "snd st \<noteq> []" "turn predict rgb G (tie i) st = Inl e"
  shows "propagate predict rgb G tie i st = Inl e"
  by (subst propagate.simps) (simp add: assms)

lemma propagate_turn:
  assumes "snd st \<noteq> []" "turn predict rgb G (tie i) st = Inr st'"
  shows "propagate predict rgb G tie i st = propagate predict rgb G tie (Suc i) st'"
  by (subst propagate.simps) (simp add: assms)

lemma run_is_loop:
  assumes "run predict rgb G tie n st = Inr st'"
  shows "propagate predict rgb G tie 0 st = propagate predict rgb G tie n st'"
  using assms
proof (induction n arbitrary: st')
  case 0
  then show ?case by simp
next
  case (Suc n)
  then obtain st1 where 1: "run predict rgb G tie n st = Inr st1"
    and 2: "(if length (snd st1) > 0 then turn predict rgb G (tie n) st1 else Inr st1) = Inr st'"
    by (auto split: sum.splits)
  have "propagate predict rgb G tie 0 st = propagate predict rgb G tie n st1" by (rule Suc.IH [OF 1])
  also have "\<dots> = propagate predict rgb G tie (Suc n) st'"
  proof (cases "length (snd st1) > 0")
    case True
    with 2 have "snd st1 \<noteq> []" "turn predict rgb G (tie n) st1 = Inr st'" by simp_all
    then show ?thesis by (rule propagate_turn)
  next
    case False
    with 2 have "snd st1 = []" "st' = st1" by simp_all
    then show ?thesis by (simp add: propagate_done)
  qed
  finally show ?case .
qed

section \<open>Properties of the speed function\<close>

lemma strength_nonneg:
  "0 \<le> ch0 (pixel (rgbGradientStrength gx gy im) y x) \<and>
   0 \<le> ch1 (pixel (rgbGradientStrength gx gy im) y x) \<and>
   0 \<le> ch2 (pixel (rgbGradientStrength gx gy im) y x)"
  by (simp add: rgbGradientStrength_def ch0_def ch1_def ch2_def)

text \<open>
  C3, as stated: the speed lies strictly inside \<open>(-1, 0)\<close> and never equals \<open>-1\<close>. It fails
  where the three gradient strengths are all zero (any pixel of a uniformly coloured
  region): the code computes \<open>-1 / (1 + 0 + 0 + 0) = -1\<close>.
\<close>

theorem ComputeSpeed_flat_counterexample:
  "ComputeSpeed (rgbGradientStrength (flatField 3 3) (flatField 3 3) (grayImage 3 3)) (1, 1) = - 1"
  by (simp add: ComputeSpeed_def rgbGradientStrength_def flatField_def ch0_def ch1_def ch2_def)

lemma ComputeSpeed_bounds:
  "- 1 \<le> ComputeSpeed (rgbGradientStrength gx gy im) p \<and>
   ComputeSpeed (rgbGradientStrength gx gy im) p < 0"
proof -
  let ?G = "rgbGradientStrength gx gy im"
  let ?s = "ch0 (pixel ?G (snd p) (fst p)) + ch1 (pixel ?G (snd p) (fst p)) +
            ch2 (pixel ?G (snd p) (fst p))"
  have s: "0 \<le> ?s"
    using strength_nonneg [of gx gy im "snd p" "fst p"] by linarith
  have eq: "ComputeSpeed ?G p = - 1 / (1 + ?s)"
    by (simp add: ComputeSpeed_def add.assoc)
  have "1 / (1 + ?s) \<le> 1" using s by (simp add: divide_le_eq)
  moreover have "0 < 1 / (1 + ?s)" using s by simp
  ultimately show ?thesis unfolding eq by (simp del: divide_minus_left add: minus_divide_left [symmetric])
qed

text \<open>
  C3, amended: for every pixel the speed computed from the gradient strength field of
  \<^verbatim>\<open>InPaintBase\<close> lies in the half-open interval \<open>[-1, 0)\<close>; it equals \<open>-1\<close> exactly where
  the three strengths are all zero.
\<close>

theorem ComputeSpeed_range:
  "- 1 \<le> ComputeSpeed (rgbGradientStrength gx gy im) p \<and>
   ComputeSpeed (rgbGradientStrength gx gy im) p < 0 \<and>
   (ComputeSpeed (rgbGradientStrength gx gy im) p = - 1 \<longleftrightarrow>
      pixel (rgbGradientStrength gx gy im) (snd p) (fst p) = (0, 0, 0))"
proof -
  let ?v = "pixel (rgbGradientStrength gx gy im) (snd p) (fst p)"
  have n: "0 \<le> ch0 ?v" "0 \<le> ch1 ?v" "0 \<le> ch2 ?v"
    using strength_nonneg [of gx gy im "snd p" "fst p"] by simp_all
  have "ComputeSpeed (rgbGradientStrength gx gy im) p = - 1 \<longleftrightarrow> ch0 ?v + ch1 ?v + ch2 ?v = 0"
    using n by (simp add: ComputeSpeed_def divide_eq_eq add.assoc)
  also have "\<dots> \<longleftrightarrow> ch0 ?v = 0 \<and> ch1 ?v = 0 \<and> ch2 ?v = 0"
    using n by linarith
  also have "\<dots> \<longleftrightarrow> ?v = (0, 0, 0)"
    by (cases ?v) (simp add: ch0_def ch1_def ch2_def)
  finally show ?thesis using ComputeSpeed_bounds [of gx gy im p] by simp
qed

section \<open>The bilateral predictor\<close>

lemma tally_Nil: "tally g D C x y [] acc = acc"
  by (simp add: tally_def)

lemma tally_append: "tally g D C x y (A @ B) acc = tally g D C x y B (tally g D C x y A acc)"
  by (simp add: tally_def add.assoc)

lemma body_tally:
  "PredictDepth_body g D C x y n m acc =
     tally g D C x y (filter (\<lambda>p. pixel D (snd p) (fst p) \<noteq> 0) [(m, n)]) acc"
  by (cases acc) (simp add: PredictDepth_body_def tally_def floored_weight_def Let_def split: prod.splits)

lemma inner_loop:
  "foldl (\<lambda>acc m. PredictDepth_body g D C x y n m acc) acc ms =
     tally g D C x y (filter (\<lambda>p. pixel D (snd p) (fst p) \<noteq> 0) (map (\<lambda>m. (m, n)) ms)) acc"
proof (induction ms arbitrary: acc)
  case Nil
  show ?case by (simp add: tally_Nil)
next
  case (Cons m ms)
  let ?k = "\<lambda>p. pixel D (snd p) (fst p) \<noteq> 0"
  have "foldl (\<lambda>acc m. PredictDepth_body g D C x y n m acc) acc (m # ms) =
        tally g D C x y (filter ?k (map (\<lambda>m. (m, n)) ms)) (PredictDepth_body g D C x y n m acc)"
    by (simp only: foldl_Cons Cons.IH)
  also have "\<dots> = tally g D C x y (filter ?k [(m, n)] @ filter ?k (map (\<lambda>m. (m, n)) ms)) acc"
    by (simp only: body_tally tally_append)
  also have "filter ?k [(m, n)] @ filter ?k (map (\<lambda>m. (m, n)) ms) = filter ?k (map (\<lambda>m. (m, n)) (m # ms))"
    by simp
  finally show ?case .
qed

lemma outer_loop:
  "foldl (\<lambda>acc n. foldl (\<lambda>acc m. PredictDepth_body g D C x y n m acc) acc ms) acc ns =
     tally g D C x y
       (filter (\<lambda>p. pixel D (snd p) (fst p) \<noteq> 0) (concat (map (\<lambda>n. map (\<lambda>m. (m, n)) ms) ns))) acc"
proof (induction ns arbitrary: acc)
  case Nil
  show ?case by (simp add: tally_Nil)
next
  case (Cons n ns)
  let ?k = "\<lambda>p. pixel D (snd p) (fst p) \<noteq> 0"
  let ?row = "\<lambda>n. map (\<lambda>m. (m, n)) ms"
  have "foldl (\<lambda>acc n. foldl (\<lambda>acc m. PredictDepth_body g D C x y n m acc) acc ms) acc (n # ns) =
        tally g D C x y (filter ?k (concat (map ?row ns)))
          (foldl (\<lambda>acc m. PredictDepth_body g D C x y n m acc) acc ms)"
    by (simp only: foldl_Cons Cons.IH)
  also have "\<dots> = tally g D C x y (filter ?k (?row n) @ filter ?k (concat (map ?row ns))) acc"
    by (simp only: inner_loop tally_append)
  also have "filter ?k (?row n) @ filter ?k (concat (map ?row ns)) = filter ?k (concat (map ?row (n # ns)))"
    by simp
  finally show ?case .
qed

lemma PredictDepth_sums_eq:
  "PredictDepth_sums g D C x y =
     ((\<Sum>p \<leftarrow> known_window g D x y. floored_weight g C x y p),
      (\<Sum>p \<leftarrow> known_window g D x y. floored_weight g C x y p * pixel D (snd p) (fst p)),
      int (length (known_window g D x y)))"
  by (simp add: PredictDepth_sums_def Let_def outer_loop known_window_def window_def tally_def)

text \<open>
  C4: \<^verbatim>\<open>PredictDepth\<close> returns 0 when the clipped window around \<open>(x, y)\<close> holds fewer than 4
  known pixels; otherwise it returns the quotient of the two sums over the known window
  pixels, where each bilateral weight is floored at \<open>1e-6\<close> before it enters both sums,
  and the gradient term enters neither.
\<close>

theorem PredictDepth_is_bilateral_mean:
  "PredictDepth g D C x y = bilateral_mean g D C x y"
  by (simp add: PredictDepth_def PredictDepth_sums_eq bilateral_mean_def)

lemma floored_weight_ge: "1 / 1000000 \<le> floored_weight g C x y p"
  by (simp add: floored_weight_def)


lemma weighted_mean_bounds:
  fixes w d :: "'a \<Rightarrow> real"
  assumes pos: "\<And>p. p \<in> set K \<Longrightarrow> 0 < w p" and ne: "K \<noteq> []"
    and rng: "\<And>p. p \<in> set K \<Longrightarrow> lo \<le> d p \<and> d p \<le> hi"
  shows "lo \<le> (\<Sum>p \<leftarrow> K. w p * d p) / (\<Sum>p \<leftarrow> K. w p) \<and>
         (\<Sum>p \<leftarrow> K. w p * d p) / (\<Sum>p \<leftarrow> K. w p) \<le> hi"
proof -
  obtain p0 K' where K: "K = p0 # K'" using ne by (cases K) auto
  have "0 \<le> (\<Sum>p \<leftarrow> K'. w p)"
    by (rule sum_list_nonneg) (use pos K in force)
  moreover have "0 < w p0" using pos K by simp
  ultimately have sw: "0 < (\<Sum>p \<leftarrow> K. w p)" by (simp add: K)
  have "(\<Sum>p \<leftarrow> K. lo * w p) \<le> (\<Sum>p \<leftarrow> K. w p * d p)"
  proof (rule sum_list_mono)
    fix p assume "p \<in> set K"
    then have "w p * lo \<le> w p * d p" using pos rng by (simp add: less_imp_le mult_left_mono)
    then show "lo * w p \<le> w p * d p" by (simp only: mult.commute)
  qed
  then have l: "lo * (\<Sum>p \<leftarrow> K. w p) \<le> (\<Sum>p \<leftarrow> K. w p * d p)"
    by (simp only: sum_list_const_mult)
  have "(\<Sum>p \<leftarrow> K. w p * d p) \<le> (\<Sum>p \<leftarrow> K. hi * w p)"
  proof (rule sum_list_mono)
    fix p assume "p \<in> set K"
    then have "w p * d p \<le> w p * hi" using pos rng by (simp add: less_imp_le mult_left_mono)
    then show "w p * d p \<le> hi * w p" by (simp only: mult.commute)
  qed
  then have h: "(\<Sum>p \<leftarrow> K. w p * d p) \<le> hi * (\<Sum>p \<leftarrow> K. w p)"
    by (simp only: sum_list_const_mult)
  from l h sw show ?thesis by (simp add: pos_le_divide_eq pos_divide_le_eq)
qed

lemma floored_weight_pos: "0 < floored_weight g C x y p"
  using floored_weight_ge [of g C x y p] by simp


section \<open>Known pixels are kept\<close>

lemma cvRound_of_int: "cvRound (real_of_int i) = i"
  by (simp add: cvRound_def)

lemma saturate_roundtrip: "saturate_cast_ushort (real (unat (w :: 16 word))) = w"
proof -
  have "uint w < 2 ^ 16" using uint_lt2p [of w] by simp
  then have m: "max 0 (min 65535 (uint w)) = uint w" by simp
  have "real (unat w) = real_of_int (uint w)" by simp
  then have "cvRound (real (unat w)) = uint w" by (simp only: cvRound_of_int)
  then show ?thesis by (simp only: saturate_cast_ushort_def m word_of_int_uint)
qed

lemma saturate_unsigned: "saturate_cast_ushort (unsigned (w :: 16 word)) = w"
  using saturate_roundtrip [of w] by simp

lemma visit_known:
  assumes "visit predict rgb G s P d st = Inr st'" "pixel (fst st) y x \<noteq> 0"
  shows "pixel (fst st') y x = pixel (fst st) y x"
  using assms by (auto simp: visit_def Let_def pixel_set_pixel split: if_splits)

lemma for_each_known:
  assumes "for_each (visit predict rgb G s P) ds st = Inr st'" "pixel (fst st) y x \<noteq> 0"
  shows "pixel (fst st') y x = pixel (fst st) y x"
  using assms
proof (induction ds arbitrary: st)
  case Nil
  then show ?case by simp
next
  case (Cons d ds)
  then obtain st1 where 1: "visit predict rgb G s P d st = Inr st1"
    and 2: "for_each (visit predict rgb G s P) ds st1 = Inr st'"
    by (auto split: sum.splits)
  have k: "pixel (fst st1) y x = pixel (fst st) y x" using 1 Cons.prems(2) by (rule visit_known)
  then have "pixel (fst st1) y x \<noteq> 0" using Cons.prems(2) by simp
  with Cons.IH [OF 2] k show ?case by simp
qed

lemma turn_known:
  assumes "turn predict rgb G k st = Inr st'" "pixel (fst st) y x \<noteq> 0"
  shows "pixel (fst st') y x = pixel (fst st) y x"
  using for_each_known [of predict rgb G _ _ neighbours "(fst st, pq_pop k (snd st))" st' y x] assms
  by (simp add: turn_def Let_def)

lemma propagate_known:
  assumes "propagate predict rgb G tie i st = Inr D'" "pixel (fst st) y x \<noteq> 0"
  shows "pixel D' y x = pixel (fst st) y x"
  using assms
proof (induction predict rgb G tie i st rule: propagate.induct)
  case (1 predict rgb G tie i st)
  show ?case
  proof (cases "length (snd st) > 0")
    case False
    then show ?thesis using "1.prems" by (simp add: propagate_done)
  next
    case True
    then have ne: "snd st \<noteq> []" by simp
    show ?thesis
    proof (cases "turn predict rgb G (tie i) st")
      case (Inl e)
      with ne "1.prems"(1) show ?thesis by (simp add: propagate_abort)
    next
      case (Inr st1)
      then have p: "propagate predict rgb G tie (Suc i) st1 = Inr D'"
        using ne "1.prems"(1) by (simp add: propagate_turn)
      have k: "pixel (fst st1) y x = pixel (fst st) y x" using Inr "1.prems"(2) by (rule turn_known)
      with "1.IH" [OF True Inr p] "1.prems"(2) show ?thesis by simp
    qed
  qed
qed

lemma InPaintBase_Inr:
  assumes "InPaintBase g lib tie D C predict = Inr D'"
  shows "\<exists>F'. propagate predict C
      (rgbGradientStrength (Sobel lib (GaussianBlur lib C (blurSigma g) (blurSigma g)) 1 0 3)
         (Sobel lib (GaussianBlur lib C (blurSigma g) (blurSigma g)) 0 1 3) C)
      tie 0 (convertTo_32F D, initial_band (convertTo_32F D)) = Inr F' \<and> D' = convertTo_16U F'"
proof -
  have pre: "\<not> (cols C \<noteq> cols D \<or> rows C \<noteq> rows D)" "channels D = 1" "channels C = 3"
    using assms unfolding InPaintBase_def by (simp_all split: if_splits)
  show ?thesis using assms unfolding InPaintBase_def Let_def
    by (simp only: pre if_False not_True_eq_False simp_thms split: sum.splits) auto
qed

text \<open>
  C2: for every pixel \<open>(x, y)\<close> of the input with \<open>D(y, x) \<noteq> 0\<close>, the output has
  \<open>D'(y, x) = D(y, x)\<close>: the loop writes unknown pixels only, and a 16-bit value survives
  the conversion to \<^verbatim>\<open>float\<close> and back. It holds for every predictor and every order
  among entries of equal priority.
\<close>

theorem known_pixels_preserved:
  assumes "InPaintBase g lib tie D C predict = Inr D'"
    and "0 \<le> x" "x < cols D" "0 \<le> y" "y < rows D"
    and "pixel D y x \<noteq> 0"
  shows "pixel D' y x = pixel D y x"
proof -
  let ?F = "convertTo_32F D"
  from InPaintBase_Inr [OF assms(1)] obtain F' G where
    p: "propagate predict C G tie 0 (?F, initial_band ?F) = Inr F'" and D': "D' = convertTo_16U F'"
    by blast
  have "real (unat (pixel D y x)) \<noteq> 0"
    using assms(6) by (simp only: of_nat_eq_0_iff unat_eq_0 not_False_eq_True)
  then have nz: "pixel (fst (?F, initial_band ?F)) y x \<noteq> 0"
    by (simp only: convertTo_32F_def fst_conv Mat.select_convs not_False_eq_True)
  have "pixel F' y x = pixel ?F y x" using propagate_known [OF p nz] by simp
  then show ?thesis by (simp add: D' convertTo_16U_def convertTo_32F_def saturate_unsigned)
qed

section \<open>Deferral and abort\<close>

lemma for_each_abort:
  assumes "for_each f ds1 st = Inr st1" "f d st1 = Inl e"
  shows "for_each f (ds1 @ d # ds2) st = Inl e"
  using assms by (induction ds1 arbitrary: st) (auto split: sum.splits)

lemma visit_Inl:
  "visit predict rgb G s P d (D, h) = Inl e \<longleftrightarrow>
     (0 \<le> fst P + fst d \<and> 0 \<le> snd P + snd d \<and> fst P + fst d < cols D \<and> snd P + snd d < rows D) \<and>
     pixel D (snd P + snd d) (fst P + fst d) = 0 \<and>
     predict D rgb (fst P + fst d) (snd P + snd d) = 0 \<and>
     s < - 20 \<and> e = runtime_error too_few_known_values"
  by (auto simp: visit_def Let_def)

lemma visit_deferral:
  assumes "0 \<le> fst P + fst d" "0 \<le> snd P + snd d" "fst P + fst d < cols D" "snd P + snd d < rows D"
    and "pixel D (snd P + snd d) (fst P + fst d) = 0"
    and "predict D rgb (fst P + fst d) (snd P + snd d) = 0"
  shows "visit predict rgb G s P d (D, h) =
     (if s < - 20 then Inl (runtime_error too_few_known_values)
      else Inr (set_pixel D (snd P + snd d) (fst P + fst d) 0, emplace (s - 1) P h))"
  using assms by (simp add: visit_def Let_def)

lemma InPaintBase_abort:
  assumes "cols C = cols D" "rows C = rows D" "channels D = 1" "channels C = 3"
   and "propagate predict C
      (rgbGradientStrength (Sobel lib (GaussianBlur lib C (blurSigma g) (blurSigma g)) 1 0 3)
         (Sobel lib (GaussianBlur lib C (blurSigma g) (blurSigma g)) 0 1 3) C)
      tie 0 (convertTo_32F D, initial_band (convertTo_32F D)) = Inl e"
  shows "InPaintBase g lib tie D C predict = Inl e"
  unfolding InPaintBase_def Let_def using assms by simp

text \<open>
  C5: when the predictor returns 0 for an unknown neighbour inside the image, the popped
  parent \<open>P\<close> is enqueued again with priority \<open>s - 1\<close>, unless \<open>s < -20\<close>: then, and only
  then, the visit throws the error "Too few known values. Try densifying your depth
  image first, or increasing the window size."; the error ends the turn, the loop and
  \<^verbatim>\<open>InPaintBase\<close>, whose result is then the error and no image.
\<close>

theorem deferral_or_abort:
  "(0 \<le> fst P + fst d \<and> 0 \<le> snd P + snd d \<and> fst P + fst d < cols D \<and> snd P + snd d < rows D \<and>
    pixel D (snd P + snd d) (fst P + fst d) = 0 \<and>
    predict D rgb (fst P + fst d) (snd P + snd d) = 0 \<longrightarrow>
      visit predict rgb G s P d (D, h) =
        (if s < - 20 then Inl (runtime_error too_few_known_values)
         else Inr (set_pixel D (snd P + snd d) (fst P + fst d) 0, emplace (s - 1) P h))) \<and>
   (visit predict rgb G s P d (D, h) = Inl e \<longleftrightarrow>
      (0 \<le> fst P + fst d \<and> 0 \<le> snd P + snd d \<and> fst P + fst d < cols D \<and> snd P + snd d < rows D) \<and>
      pixel D (snd P + snd d) (fst P + fst d) = 0 \<and>
      predict D rgb (fst P + fst d) (snd P + snd d) = 0 \<and>
      s < - 20 \<and> e = runtime_error too_few_known_values) \<and>
   (snd st \<noteq> [] \<and> pq_top (tie i) (snd st) = (s, P) \<and> neighbours = ds1 @ d # ds2 \<and>
    for_each (visit predict rgb G s P) ds1 (fst st, pq_pop (tie i) (snd st)) = Inr (D, h) \<and>
    visit predict rgb G s P d (D, h) = Inl e \<longrightarrow>
      propagate predict rgb G tie i st = Inl e) \<and>
   (cols C = cols D0 \<and> rows C = rows D0 \<and> channels D0 = 1 \<and> channels C = 3 \<and>
    propagate predict C
      (rgbGradientStrength (Sobel lib (GaussianBlur lib C (blurSigma g) (blurSigma g)) 1 0 3)
         (Sobel lib (GaussianBlur lib C (blurSigma g) (blurSigma g)) 0 1 3) C)
      tie 0 (convertTo_32F D0, initial_band (convertTo_32F D0)) = Inl e \<longrightarrow>
      InPaintBase g lib tie D0 C predict = Inl e)"
proof (intro conjI impI)
  assume "0 \<le> fst P + fst d \<and> 0 \<le> snd P + snd d \<and> fst P + fst d < cols D \<and> snd P + snd d < rows D \<and>
    pixel D (snd P + snd d) (fst P + fst d) = 0 \<and>
    predict D rgb (fst P + fst d) (snd P + snd d) = 0"
  then show "visit predict rgb G s P d (D, h) =
        (if s < - 20 then Inl (runtime_error too_few_known_values)
         else Inr (set_pixel D (snd P + snd d) (fst P + fst d) 0, emplace (s - 1) P h))"
    by (simp add: visit_deferral)
next
  show "visit predict rgb G s P d (D, h) = Inl e \<longleftrightarrow>
      (0 \<le> fst P + fst d \<and> 0 \<le> snd P + snd d \<and> fst P + fst d < cols D \<and> snd P + snd d < rows D) \<and>
      pixel D (snd P + snd d) (fst P + fst d) = 0 \<and>
      predict D rgb (fst P + fst d) (snd P + snd d) = 0 \<and>
      s < - 20 \<and> e = runtime_error too_few_known_values"
    by (rule visit_Inl)
next
  assume a: "snd st \<noteq> [] \<and> pq_top (tie i) (snd st) = (s, P) \<and> neighbours = ds1 @ d # ds2 \<and>
    for_each (visit predict rgb G s P) ds1 (fst st, pq_pop (tie i) (snd st)) = Inr (D, h) \<and>
    visit predict rgb G s P d (D, h) = Inl e"
  then have a1: "snd st \<noteq> []" and a2: "pq_top (tie i) (snd st) = (s, P)"
    and a3: "neighbours = ds1 @ d # ds2"
    and a4: "for_each (visit predict rgb G s P) ds1 (fst st, pq_pop (tie i) (snd st)) = Inr (D, h)"
    and a5: "visit predict rgb G s P d (D, h) = Inl e"
    by blast+
  from a4 a5 have "for_each (visit predict rgb G s P) (ds1 @ d # ds2) (fst st, pq_pop (tie i) (snd st)) = Inl e"
    by (rule for_each_abort)
  then have "turn predict rgb G (tie i) st = Inl e" by (simp add: turn_def a2 a3)
  with a1 show "propagate predict rgb G tie i st = Inl e" by (rule propagate_abort)
next
  assume "cols C = cols D0 \<and> rows C = rows D0 \<and> channels D0 = 1 \<and> channels C = 3 \<and>
    propagate predict C
      (rgbGradientStrength (Sobel lib (GaussianBlur lib C (blurSigma g) (blurSigma g)) 1 0 3)
         (Sobel lib (GaussianBlur lib C (blurSigma g) (blurSigma g)) 0 1 3) C)
      tie 0 (convertTo_32F D0, initial_band (convertTo_32F D0)) = Inl e"
  then show "InPaintBase g lib tie D0 C predict = Inl e" by (intro InPaintBase_abort) simp_all
qed

section \<open>Priorities in the narrow band\<close>

lemma initial_band_eq:
  "initial_band D = map (\<lambda>p. (0, p)) (filter (\<lambda>p. pixel D (snd p) (fst p) \<noteq> 0) (scan D))"
proof -
  let ?k = "\<lambda>p. pixel D (snd p) (fst p) \<noteq> 0"
  let ?f = "\<lambda>y. (\<lambda>b x. if pixel D y x \<noteq> 0 then emplace 0 (x, y) b else b)"
  have inner: "foldl (?f y) b xs = b @ map (\<lambda>p. (0, p)) (filter ?k (map (\<lambda>x. (x, y)) xs))" for y b xs
    by (induction xs arbitrary: b) (simp_all add: emplace_def)
  have outer: "foldl (\<lambda>b y. foldl (?f y) b xs) b ys =
      b @ map (\<lambda>p. (0, p)) (filter ?k (concat (map (\<lambda>y. map (\<lambda>x. (x, y)) xs) ys)))" for b xs ys
    by (induction ys arbitrary: b) (simp_all add: inner)
  show ?thesis unfolding initial_band_def scan_def by (simp only: outer append_Nil)
qed

lemma nonpos_initial: "nonpos (initial_band D)"
  by (simp add: initial_band_eq nonpos_def list_all_iff)

lemma visit_nonpos:
  assumes "visit predict rgb (rgbGradientStrength gx gy im) s P d st = Inr st'"
    and "s \<le> 0" "nonpos (snd st)"
  shows "nonpos (snd st')"
  using assms ComputeSpeed_bounds [of gx gy im "(fst P + fst d, snd P + snd d)"]
  by (auto simp: visit_def Let_def nonpos_def emplace_def split: if_splits)

lemma for_each_nonpos:
  assumes "for_each (visit predict rgb (rgbGradientStrength gx gy im) s P) ds st = Inr st'"
    and "s \<le> 0" "nonpos (snd st)"
  shows "nonpos (snd st')"
  using assms
proof (induction ds arbitrary: st)
  case Nil
  then show ?case by simp
next
  case (Cons d ds)
  then obtain st1 where 1: "visit predict rgb (rgbGradientStrength gx gy im) s P d st = Inr st1"
    and 2: "for_each (visit predict rgb (rgbGradientStrength gx gy im) s P) ds st1 = Inr st'"
    by (auto split: sum.splits)
  from visit_nonpos [OF 1 Cons.prems(2,3)] Cons.IH [OF 2 Cons.prems(2)] show ?case by simp
qed

lemma top_nonpos:
  assumes "h \<noteq> []" "nonpos h"
  shows "fst (pq_top k h) \<le> 0 \<and> nonpos (pq_pop k h)"
proof -
  have "pq_top k h \<in> set h" using assms(1) by (rule pq_top_in)
  moreover have "set (pq_pop k h) \<subseteq> set h" unfolding pq_pop_def by (rule set_remove1_subset)
  ultimately show ?thesis using assms(2) by (auto simp: nonpos_def list_all_iff)
qed

lemma turn_nonpos:
  assumes "turn predict rgb (rgbGradientStrength gx gy im) k st = Inr st'"
    and "snd st \<noteq> []" "nonpos (snd st)"
  shows "nonpos (snd st')"
proof -
  from top_nonpos [OF assms(2,3), of k]
  have t: "fst (pq_top k (snd st)) \<le> 0" and p: "nonpos (snd (fst st, pq_pop k (snd st)))" by simp_all
  from assms(1) show ?thesis unfolding turn_def Let_def
    by (rule for_each_nonpos [OF _ t p])
qed

lemma run_nonpos:
  assumes "run predict rgb (rgbGradientStrength gx gy im) tie n st = Inr st'" "nonpos (snd st)"
  shows "nonpos (snd st')"
  using assms
proof (induction n arbitrary: st')
  case 0
  then show ?case by simp
next
  case (Suc n)
  then obtain st1 where 1: "run predict rgb (rgbGradientStrength gx gy im) tie n st = Inr st1"
    and 2: "(if length (snd st1) > 0 then turn predict rgb (rgbGradientStrength gx gy im) (tie n) st1 else Inr st1) = Inr st'"
    by (auto split: sum.splits)
  have n1: "nonpos (snd st1)" using 1 Suc.prems(2) by (rule Suc.IH)
  show ?case
  proof (cases "length (snd st1) > 0")
    case True
    with 2 have t: "turn predict rgb (rgbGradientStrength gx gy im) (tie n) st1 = Inr st'" by simp
    from True have "snd st1 \<noteq> []" by simp
    with t show ?thesis using n1 by (rule turn_nonpos)
  next
    case False
    with 2 n1 show ?thesis by simp
  qed
qed

text \<open>
  C6, as stated: every entry pushed for a deferred pixel has a priority strictly below
  \<open>-1\<close>, also at the first deferral of an initial seed. A seed is popped with priority 0,
  so its first deferral pushes the priority \<open>0 - 1 = -1\<close> (shown among the runs on
  concrete inputs, on a 1x2 image).

  C6, amended: in every state the loop reaches from the seeded band, a deferral of the
  popped entry \<open>(s, P)\<close> pushes the entry \<open>(s - 1, P)\<close>, whose priority is at most \<open>-1\<close>;
  it is strictly below \<open>-1\<close> unless \<open>s = 0\<close>.
\<close>

theorem deferred_priority:
  assumes "run predict rgb (rgbGradientStrength gx gy im) tie n (D0, initial_band D0) = Inr st"
    and "snd st \<noteq> []" and "pq_top (tie n) (snd st) = (s, P)"
    and "neighbours = ds1 @ d # ds2"
    and "for_each (visit predict rgb (rgbGradientStrength gx gy im) s P) ds1
           (fst st, pq_pop (tie n) (snd st)) = Inr (D, h)"
    and "0 \<le> fst P + fst d" "0 \<le> snd P + snd d" "fst P + fst d < cols D" "snd P + snd d < rows D"
    and "pixel D (snd P + snd d) (fst P + fst d) = 0"
    and "predict D rgb (fst P + fst d) (snd P + snd d) = 0"
    and "\<not> s < - 20"
  shows "visit predict rgb (rgbGradientStrength gx gy im) s P d (D, h) =
           Inr (set_pixel D (snd P + snd d) (fst P + fst d) 0, h @ [(s - 1, P)]) \<and>
         s - 1 \<le> - 1 \<and> (s - 1 < - 1 \<longleftrightarrow> s \<noteq> 0)"
proof -
  have "nonpos (snd st)"
    using assms(1) by (rule run_nonpos) (simp add: nonpos_initial)
  with top_nonpos [OF assms(2), of "tie n"] assms(3) have s: "s \<le> 0" by simp
  have "visit predict rgb (rgbGradientStrength gx gy im) s P d (D, h) =
           Inr (set_pixel D (snd P + snd d) (fst P + fst d) 0, h @ [(s - 1, P)])"
    using assms(6-12) by (simp add: visit_deferral emplace_def)
  with s show ?thesis by auto
qed

section \<open>Every pixel is filled, or the call aborts\<close>

subsection \<open>Invariants of the depth image\<close>

lemma for_each_invariant:
  assumes "\<And>d st st'. I st \<Longrightarrow> f d st = Inr st' \<Longrightarrow> I st'"
    and "I st" "for_each f ds st = Inr st'"
  shows "I st'"
  using assms(2,3)
proof (induction ds arbitrary: st)
  case Nil
  then show ?case by simp
next
  case (Cons d ds)
  then obtain st1 where 1: "f d st = Inr st1" and 2: "for_each f ds st1 = Inr st'"
    by (auto split: sum.splits)
  from assms(1) [OF Cons.prems(1) 1] have "I st1" .
  then show ?case using 2 by (rule Cons.IH)
qed

lemma propagate_image_invariant:
  assumes "\<And>s P d D h D' h'. J D \<Longrightarrow> visit predict rgb G s P d (D, h) = Inr (D', h') \<Longrightarrow> J D'"
    and "J (fst st)" "propagate predict rgb G tie i st = Inr D'"
  shows "J D'"
  using assms
proof (induction predict rgb G tie i st rule: propagate.induct)
  case (1 predict rgb G tie i st)
  note step = "1.prems"(1)
  show ?case
  proof (cases "length (snd st) > 0")
    case False
    then show ?thesis using "1.prems"(2,3) by (simp add: propagate_done)
  next
    case True
    then have ne: "snd st \<noteq> []" by simp
    show ?thesis
    proof (cases "turn predict rgb G (tie i) st")
      case (Inl e)
      with ne "1.prems"(3) show ?thesis by (simp add: propagate_abort)
    next
      case (Inr st1)
      then have p: "propagate predict rgb G tie (Suc i) st1 = Inr D'"
        using ne "1.prems"(3) by (simp add: propagate_turn)
      have "(J \<circ> fst) st1"
      proof (rule for_each_invariant [where I = "J \<circ> fst"])
        show "for_each (visit predict rgb G (fst (pq_top (tie i) (snd st))) (snd (pq_top (tie i) (snd st))))
            neighbours (fst st, pq_pop (tie i) (snd st)) = Inr st1"
          using Inr by (simp add: turn_def Let_def)
        show "(J \<circ> fst) (fst st, pq_pop (tie i) (snd st))" using "1.prems"(2) by simp
      next
        fix d a b
        assume ja: "(J \<circ> fst) a"
          and v: "visit predict rgb G (fst (pq_top (tie i) (snd st))) (snd (pq_top (tie i) (snd st))) d a = Inr b"
        from ja have "J (fst a)" by simp
        moreover from v have "visit predict rgb G (fst (pq_top (tie i) (snd st)))
            (snd (pq_top (tie i) (snd st))) d (fst a, snd a) = Inr (fst b, snd b)" by simp
        ultimately have "J (fst b)" by (rule step)
        then show "(J \<circ> fst) b" by simp
      qed
      then have "J (fst st1)" by simp
      with step show ?thesis using p by (rule "1.IH" [OF True Inr])
    qed
  qed
qed

subsection \<open>Dimensions\<close>

lemma visit_dims:
  assumes "visit predict rgb G s P d (D, h) = Inr (D', h')"
  shows "rows D' = rows D \<and> cols D' = cols D"
  using assms by (auto simp: visit_def Let_def set_pixel_def split: if_splits)

lemma propagate_dims:
  assumes "propagate predict rgb G tie i st = Inr D'"
  shows "rows D' = rows (fst st) \<and> cols D' = cols (fst st)"
proof (rule propagate_image_invariant [where J = "\<lambda>D'. rows D' = rows (fst st) \<and> cols D' = cols (fst st)", OF _ _ assms])
  show "rows (fst st) = rows (fst st) \<and> cols (fst st) = cols (fst st)" by simp
next
  fix s P d D h D' h'
  assume "rows D = rows (fst st) \<and> cols D = cols (fst st)" "visit predict rgb G s P d (D, h) = Inr (D', h')"
  then show "rows D' = rows (fst st) \<and> cols D' = cols (fst st)" using visit_dims by metis
qed

subsection \<open>Depths stay at 1 or above\<close>

lemma window_in_bounds: "set (window g D x y) \<subseteq> in_bounds D"
  by (auto simp: window_def in_bounds_def)

lemma PredictDepth_sane:
  assumes "sane D"
  shows "PredictDepth g D C x y = 0 \<or> 1 \<le> PredictDepth g D C x y"
proof (cases "length (known_window g D x y) < 4")
  case True
  then show ?thesis by (simp add: PredictDepth_def PredictDepth_sums_eq)
next
  case False
  let ?K = "known_window g D x y"
  let ?d = "\<lambda>p. pixel D (snd p) (fst p)"
  have ne: "?K \<noteq> []" using False by auto
  have "1 \<le> (\<Sum>p \<leftarrow> ?K. floored_weight g C x y p * ?d p) / (\<Sum>p \<leftarrow> ?K. floored_weight g C x y p) \<and>
        (\<Sum>p \<leftarrow> ?K. floored_weight g C x y p * ?d p) / (\<Sum>p \<leftarrow> ?K. floored_weight g C x y p)
          \<le> Max (set (map ?d ?K))"
  proof (rule weighted_mean_bounds)
    fix q assume q: "q \<in> set ?K"
    then have "q \<in> in_bounds D" "?d q \<noteq> 0"
      using window_in_bounds [of g D x y] by (auto simp: known_window_def)
    then have "1 \<le> ?d q" using assms by (auto simp: sane_def)
    moreover have "?d q \<le> Max (set (map ?d ?K))" using q by simp
    ultimately show "1 \<le> ?d q \<and> ?d q \<le> Max (set (map ?d ?K))" by simp
  qed (simp_all add: floored_weight_pos ne)
  then show ?thesis using False by (simp add: PredictDepth_def PredictDepth_sums_eq)
qed

lemma visit_sane:
  assumes "sane D" "visit (PredictDepth g) rgb G s P d (D, h) = Inr (D', h')"
  shows "sane D'"
proof -
  have "sane (set_pixel D y x v)" if "v = 0 \<or> 1 \<le> v" for x y v
    using assms(1) that by (auto simp: sane_def in_bounds_set_pixel pixel_set_pixel)
  then show ?thesis
    using assms PredictDepth_sane [OF assms(1), of g rgb "fst P + fst d" "snd P + snd d"]
    by (auto simp: visit_def Let_def split: if_splits)
qed

lemma propagate_sane:
  assumes "sane (fst st)" "propagate (PredictDepth g) rgb G tie i st = Inr D'"
  shows "sane D'"
  using visit_sane assms by (rule propagate_image_invariant [where J = sane])

lemma sane_convert: "sane (convertTo_32F D)"
proof -
  have "real (unat w) = 0 \<or> 1 \<le> real (unat w)" for w :: "16 word"
    by (cases "unat w") simp_all
  then show ?thesis by (simp add: sane_def convertTo_32F_def)
qed

lemma saturate_nonzero:
  assumes "1 \<le> v"
  shows "saturate_cast_ushort v \<noteq> 0"
proof -
  have "1 \<le> \<lfloor>v\<rfloor>" using assms by (simp add: le_floor_iff)
  then have "1 \<le> cvRound v" by (simp add: cvRound_def)
  then have "1 \<le> max 0 (min 65535 (cvRound v))" "max 0 (min 65535 (cvRound v)) \<le> 65535" by simp_all
  then have "uint (word_of_int (max 0 (min 65535 (cvRound v))) :: 16 word) = max 0 (min 65535 (cvRound v))"
    by (simp add: uint_word_of_int)
  with \<open>1 \<le> max 0 (min 65535 (cvRound v))\<close>
  have u: "1 \<le> uint (word_of_int (max 0 (min 65535 (cvRound v))) :: 16 word)" by simp
  show ?thesis
  proof
    assume "saturate_cast_ushort v = 0"
    then have "uint (word_of_int (max 0 (min 65535 (cvRound v))) :: 16 word) = 0"
      by (simp only: saturate_cast_ushort_def unsigned_eq_0_iff)
    with u show False by simp
  qed
qed

subsection \<open>The loop throws one error only\<close>

lemma for_each_error:
  assumes "for_each (visit predict rgb G s P) ds st = Inl e"
  shows "e = runtime_error too_few_known_values"
  using assms
proof (induction ds arbitrary: st)
  case Nil
  then show ?case by simp
next
  case (Cons d ds)
  show ?case
  proof (cases "visit predict rgb G s P d st")
    case (Inl e')
    with Cons.prems have "visit predict rgb G s P d (fst st, snd st) = Inl e" by simp
    then show ?thesis by (simp only: visit_Inl)
  next
    case (Inr st1)
    with Cons.prems have "for_each (visit predict rgb G s P) ds st1 = Inl e" by simp
    then show ?thesis by (rule Cons.IH)
  qed
qed

lemma propagate_error:
  assumes "propagate predict rgb G tie i st = Inl e"
  shows "e = runtime_error too_few_known_values"
  using assms
proof (induction predict rgb G tie i st rule: propagate.induct)
  case (1 predict rgb G tie i st)
  show ?case
  proof (cases "length (snd st) > 0")
    case False
    then show ?thesis using "1.prems" by (simp add: propagate_done)
  next
    case True
    then have ne: "snd st \<noteq> []" by simp
    show ?thesis
    proof (cases "turn predict rgb G (tie i) st")
      case (Inl e')
      with ne "1.prems" have "e' = e" by (simp add: propagate_abort)
      with Inl show ?thesis unfolding turn_def Let_def by (auto dest: for_each_error)
    next
      case (Inr st1)
      then have "propagate predict rgb G tie (Suc i) st1 = Inl e"
        using ne "1.prems" by (simp add: propagate_turn)
      then show ?thesis by (rule "1.IH" [OF True Inr])
    qed
  qed
qed

subsection \<open>Known pixels with an unknown neighbour are in the band\<close>

lemma set_pixel_same: "set_pixel D y x (pixel D y x) = D"
  by (simp add: set_pixel_def)

lemma known_fill:
  assumes "(x, y) \<in> in_bounds D" "v \<noteq> 0"
  shows "known (set_pixel D y x v) = insert (x, y) (known D)"
  using assms by (auto simp: known_def in_bounds_set_pixel pixel_set_pixel)

lemma visit_cover:
  assumes "visit predict rgb G s P d st = Inr st'"
    and "cover_mid P (insert (fst P + fst d, snd P + snd d) R) st"
  shows "cover_mid P R st'"
proof -
  obtain D h where st: "st = (D, h)" by (cases st)
  let ?nx = "fst P + fst d" and ?ny = "snd P + snd d"
  show ?thesis
  proof (cases "(?nx, ?ny) \<in> in_bounds D \<and> pixel D ?ny ?nx = 0")
    case False
    then have "st' = st" using assms(1) by (auto simp: visit_def st Let_def in_bounds_def split: if_splits)
    moreover have "(?nx, ?ny) \<notin> unknown D" using False by (auto simp: unknown_def)
    ultimately show ?thesis using assms(2) unfolding cover_mid_def st by auto
  next
    case True
    let ?v = "predict D rgb ?nx ?ny"
    show ?thesis
    proof (cases "?v = 0")
      case False
      with True assms(1) have st': "st' = (set_pixel D ?ny ?nx ?v, emplace (ComputeSpeed G (?nx, ?ny)) (?nx, ?ny) h)"
        by (auto simp: visit_def st Let_def in_bounds_def split: if_splits)
      have u: "unknown (set_pixel D ?ny ?nx ?v) = unknown D - {(?nx, ?ny)}"
        using unknown_fill [of ?nx ?ny D ?v] True False by simp
      have k: "known (set_pixel D ?ny ?nx ?v) = insert (?nx, ?ny) (known D)"
        using known_fill [of ?nx ?ny D ?v] True False by simp
      show ?thesis using assms(2) unfolding cover_mid_def st st' fst_conv snd_conv u k emplace_def
        by (auto simp: image_iff)
    next
      case v0: True
      with True assms(1) have st': "st' = (set_pixel D ?ny ?nx 0, emplace (s - 1) P h)"
        by (auto simp: visit_def st Let_def in_bounds_def split: if_splits)
      have "set_pixel D ?ny ?nx 0 = D" using True set_pixel_same [of D ?ny ?nx] by simp
      then have st'': "st' = (D, h @ [(s - 1, P)])" using st' by (simp add: emplace_def)
      show ?thesis using assms(2) unfolding cover_mid_def st st'' fst_conv snd_conv
        by (auto simp: image_iff)
    qed
  qed
qed

lemma for_each_cover:
  assumes "for_each (visit predict rgb G s P) ds st = Inr st'"
    and "cover_mid P (R \<union> (\<lambda>d. (fst P + fst d, snd P + snd d)) ` set ds) st"
  shows "cover_mid P R st'"
  using assms
proof (induction ds arbitrary: st)
  case Nil
  then show ?case by simp
next
  case (Cons d ds)
  then obtain st1 where 1: "visit predict rgb G s P d st = Inr st1"
    and 2: "for_each (visit predict rgb G s P) ds st1 = Inr st'"
    by (auto split: sum.splits)
  have "cover_mid P (insert (fst P + fst d, snd P + snd d)
      (R \<union> (\<lambda>d. (fst P + fst d, snd P + snd d)) ` set ds)) st"
    using Cons.prems(2) by simp
  with 1 have "cover_mid P (R \<union> (\<lambda>d. (fst P + fst d, snd P + snd d)) ` set ds) st1"
    by (rule visit_cover)
  with 2 show ?case by (rule Cons.IH)
qed

lemma turn_cover:
  assumes "turn predict rgb G k st = Inr st'" "snd st \<noteq> []" "cover st"
  shows "cover st'"
proof -
  let ?e = "pq_top k (snd st)"
  have sub: "set (snd st) \<subseteq> insert ?e (set (pq_pop k (snd st)))"
    unfolding pq_pop_def by (metis in_set_remove1 insertCI subsetI)
  have "cover_mid (snd ?e) ({} \<union> (\<lambda>d. (fst (snd ?e) + fst d, snd (snd ?e) + snd d)) ` set neighbours)
      (fst st, pq_pop k (snd st))"
    unfolding cover_mid_def fst_conv snd_conv
  proof
    fix p assume "p \<in> known (fst st)"
    with assms(3) consider "nbrs p \<inter> unknown (fst st) = {}" | "p \<in> snd ` set (snd st)"
      unfolding cover_def by blast
    then show "nbrs p \<inter> unknown (fst st) = {} \<or> p \<in> snd ` set (pq_pop k (snd st)) \<or>
        p = snd ?e \<and> nbrs (snd ?e) \<inter> unknown (fst st)
          \<subseteq> {} \<union> (\<lambda>d. (fst (snd ?e) + fst d, snd (snd ?e) + snd d)) ` set neighbours"
    proof cases
      case 1
      then show ?thesis by simp
    next
      case 2
      then obtain e where e: "e \<in> set (snd st)" "p = snd e" by auto
      show ?thesis
      proof (cases "e = ?e")
        case True
        then show ?thesis using e by (auto simp: nbrs_def)
      next
        case False
        then have "e \<in> set (pq_pop k (snd st))" using e(1) sub by auto
        then show ?thesis using e(2) by auto
      qed
    qed
  qed
  with assms(1) have "cover_mid (snd ?e) {} st'"
    unfolding turn_def Let_def by (rule for_each_cover)
  then show ?thesis unfolding cover_mid_def cover_def subset_empty by blast
qed

lemma propagate_cover:
  assumes "propagate predict rgb G tie i st = Inr D'" "cover st"
  shows "\<forall>p \<in> known D'. nbrs p \<inter> unknown D' = {}"
  using assms
proof (induction predict rgb G tie i st rule: propagate.induct)
  case (1 predict rgb G tie i st)
  show ?case
  proof (cases "length (snd st) > 0")
    case False
    then have "D' = fst st" "snd st = []" using "1.prems"(1) by (simp_all add: propagate_done)
    then show ?thesis using "1.prems"(2) by (simp add: cover_def)
  next
    case True
    then have ne: "snd st \<noteq> []" by simp
    show ?thesis
    proof (cases "turn predict rgb G (tie i) st")
      case (Inl e)
      with ne "1.prems"(1) show ?thesis by (simp add: propagate_abort)
    next
      case (Inr st1)
      then have p: "propagate predict rgb G tie (Suc i) st1 = Inr D'"
        using ne "1.prems"(1) by (simp add: propagate_turn)
      have "cover st1" using Inr ne "1.prems"(2) by (rule turn_cover)
      with p show ?thesis by (rule "1.IH" [OF True Inr])
    qed
  qed
qed

subsection \<open>The image is connected\<close>

lemma set_scan: "set (scan D) = in_bounds D"
  by (auto simp: scan_def in_bounds_def)

lemma cover_initial: "cover (D, initial_band D)"
  by (auto simp: cover_def initial_band_eq known_def set_scan image_iff)

lemma line_induct:
  fixes a b lo hi :: int
  assumes "Q a" "lo \<le> a" "a < hi" "lo \<le> b" "b < hi"
    and up: "\<And>i. lo \<le> i \<Longrightarrow> i + 1 < hi \<Longrightarrow> Q i \<Longrightarrow> Q (i + 1)"
    and down: "\<And>i. lo \<le> i - 1 \<Longrightarrow> i < hi \<Longrightarrow> Q i \<Longrightarrow> Q (i - 1)"
  shows "Q b"
proof (cases "a \<le> b")
  case True
  then have "b < hi \<longrightarrow> Q b"
  proof (induction b rule: int_ge_induct)
    case base
    show ?case using assms(1) by simp
  next
    case (step i)
    show ?case
    proof
      assume "i + 1 < hi"
      moreover from this step.IH have "Q i" by simp
      moreover have "lo \<le> i" using step.hyps assms(2) by simp
      ultimately show "Q (i + 1)" using up by simp
    qed
  qed
  then show ?thesis using assms(5) by simp
next
  case False
  then have "b \<le> a" by simp
  then have "lo \<le> b \<longrightarrow> Q b"
  proof (induction b rule: int_le_induct)
    case base
    show ?case using assms(1) by simp
  next
    case (step i)
    show ?case
    proof
      assume "lo \<le> i - 1"
      moreover from this step.IH have "Q i" by simp
      moreover have "i < hi" using step.hyps assms(3) by simp
      ultimately show "Q (i - 1)" using down by simp
    qed
  qed
  then show ?thesis using assms(4) by simp
qed

lemma full_grid:
  assumes closed: "\<forall>p \<in> known D. nbrs p \<inter> unknown D = {}" and seed: "(x0, y0) \<in> known D"
  shows "unknown D = {}"
proof -
  have step: "q \<in> known D" if "p \<in> known D" "q \<in> nbrs p" "q \<in> in_bounds D" for p q
  proof -
    from closed that(1,2) have "q \<notin> unknown D" by blast
    with that(3) show ?thesis by (simp add: known_def unknown_def)
  qed
  have b0: "0 \<le> x0" "x0 < cols D" "0 \<le> y0" "y0 < rows D"
    using seed by (simp_all add: known_def in_bounds_def)
  have row: "(x, y0) \<in> known D" if "0 \<le> x" "x < cols D" for x
  proof (rule line_induct [where Q = "\<lambda>x. (x, y0) \<in> known D" and a = x0 and lo = 0 and hi = "cols D"])
    fix i assume h: "0 \<le> i" "i + 1 < cols D" "(i, y0) \<in> known D"
    show "(i + 1, y0) \<in> known D"
      by (rule step [of "(i, y0)"]) (use h b0 in \<open>auto simp: nbrs_def neighbours_def in_bounds_def\<close>)
  next
    fix i assume h: "0 \<le> i - 1" "i < cols D" "(i, y0) \<in> known D"
    show "(i - 1, y0) \<in> known D"
      by (rule step [of "(i, y0)"]) (use h b0 in \<open>auto simp: nbrs_def neighbours_def in_bounds_def\<close>)
  qed (use seed b0 that in simp_all)
  have all: "(x, y) \<in> known D" if "0 \<le> x" "x < cols D" "0 \<le> y" "y < rows D" for x y
  proof (rule line_induct [where Q = "\<lambda>y. (x, y) \<in> known D" and a = y0 and lo = 0 and hi = "rows D"])
    show "(x, y0) \<in> known D" using that by (simp add: row)
  next
    fix i assume h: "0 \<le> i" "i + 1 < rows D" "(x, i) \<in> known D"
    show "(x, i + 1) \<in> known D"
      by (rule step [of "(x, i)"]) (use h that in \<open>auto simp: nbrs_def neighbours_def in_bounds_def\<close>)
  next
    fix i assume h: "0 \<le> i - 1" "i < rows D" "(x, i) \<in> known D"
    show "(x, i - 1) \<in> known D"
      by (rule step [of "(x, i)"]) (use h that in \<open>auto simp: nbrs_def neighbours_def in_bounds_def\<close>)
  qed (use b0 that in simp_all)
  show ?thesis
  proof (rule ccontr)
    assume "unknown D \<noteq> {}"
    then obtain x y where u: "(x, y) \<in> unknown D" by auto
    have "(x, y) \<in> known D" by (rule all) (use u in \<open>auto simp: unknown_def in_bounds_def\<close>)
    with u show False by (simp add: known_def unknown_def)
  qed
qed

lemma InPaintBase_ok:
  assumes "cols C = cols D" "rows C = rows D" "channels D = 1" "channels C = 3"
  shows "InPaintBase g lib tie D C predict =
     (case propagate predict C
        (rgbGradientStrength (Sobel lib (GaussianBlur lib C (blurSigma g) (blurSigma g)) 1 0 3)
           (Sobel lib (GaussianBlur lib C (blurSigma g) (blurSigma g)) 0 1 3) C)
        tie 0 (convertTo_32F D, initial_band (convertTo_32F D)) of
        Inl e \<Rightarrow> Inl e
      | Inr F' \<Rightarrow> Inr (convertTo_16U F'))"
  unfolding InPaintBase_def Let_def using assms by simp

text \<open>
  C1, as stated: with at least one known pixel, \<^verbatim>\<open>InPaint\<close> returns an image without a
  zero. It fails on sparse input: for the 1x2 image with one known pixel the predictor
  finds one known pixel in every window, the seed is deferred until its priority is
  below \<open>-20\<close>, and the call throws (shown among the runs on concrete inputs).

  C1, amended: for every input \<open>(D, C)\<close> of equal size, with one depth channel and three
  colour channels, in which \<open>D\<close> has at least one known pixel, \<^verbatim>\<open>InPaint\<close> terminates, and
  either throws the error "Too few known values ..." or returns a depth image of the
  same size in which no pixel is 0. (In a rectangular image every pixel is reachable
  from every other one through 4-neighbours, so the claim's second condition follows
  from the first.) It holds for every order among entries of equal priority.
\<close>

theorem InPaint_fills_or_aborts:
  assumes "cols C = cols D" "rows C = rows D" "channels D = 1" "channels C = 3"
    and "0 \<le> x0" "x0 < cols D" "0 \<le> y0" "y0 < rows D" "pixel D y0 x0 \<noteq> 0"
  shows "InPaint g lib tie D C = Inl (runtime_error too_few_known_values) \<or>
         (\<exists>D'. InPaint g lib tie D C = Inr D' \<and> rows D' = rows D \<and> cols D' = cols D \<and>
            (\<forall>x y. 0 \<le> x \<and> x < cols D \<and> 0 \<le> y \<and> y < rows D \<longrightarrow> pixel D' y x \<noteq> 0))"
proof -
  let ?F = "convertTo_32F D"
  let ?G = "rgbGradientStrength (Sobel lib (GaussianBlur lib C (blurSigma g) (blurSigma g)) 1 0 3)
           (Sobel lib (GaussianBlur lib C (blurSigma g) (blurSigma g)) 0 1 3) C"
  let ?p = "propagate (PredictDepth g) C ?G tie 0 (?F, initial_band ?F)"
  have eq: "InPaint g lib tie D C = (case ?p of Inl e \<Rightarrow> Inl e | Inr F' \<Rightarrow> Inr (convertTo_16U F'))"
    unfolding InPaint_def using assms(1-4) by (rule InPaintBase_ok)
  show ?thesis
  proof (cases ?p)
    case (Inl e)
    then have "e = runtime_error too_few_known_values" by (rule propagate_error)
    with Inl eq show ?thesis by simp
  next
    case (Inr F')
    have dims: "rows F' = rows D" "cols F' = cols D"
      using propagate_dims [OF Inr] by (simp_all add: convertTo_32F_def)
    have "real (unat (pixel D y0 x0)) \<noteq> 0"
      using assms(9) by (simp only: of_nat_eq_0_iff unat_eq_0 not_False_eq_True)
    then have nz: "pixel (fst (?F, initial_band ?F)) y0 x0 \<noteq> 0"
      by (simp only: convertTo_32F_def fst_conv Mat.select_convs not_False_eq_True)
    have "pixel F' y0 x0 = pixel (fst (?F, initial_band ?F)) y0 x0"
      using Inr nz by (rule propagate_known)
    with nz have "pixel F' y0 x0 \<noteq> 0" by simp
    then have seed: "(x0, y0) \<in> known F'"
      using assms(5-8) dims by (simp add: known_def in_bounds_def)
    have closed: "\<forall>p \<in> known F'. nbrs p \<inter> unknown F' = {}"
      using Inr cover_initial by (rule propagate_cover)
    from closed seed have full: "unknown F' = {}" by (rule full_grid)
    have s: "sane F'"
      using _ Inr by (rule propagate_sane) (simp add: sane_convert)
    have "pixel (convertTo_16U F') y x \<noteq> 0" if "0 \<le> x" "x < cols D" "0 \<le> y" "y < rows D" for x y
    proof -
      have ib: "(x, y) \<in> in_bounds F'" using that dims by (simp add: in_bounds_def)
      with full have "pixel F' y x \<noteq> 0" by (auto simp: unknown_def)
      with s ib have "1 \<le> pixel F' y x" by (auto simp: sane_def)
      then show ?thesis by (simp add: convertTo_16U_def saturate_nonzero)
    qed
    then have "InPaint g lib tie D C = Inr (convertTo_16U F') \<and>
        rows (convertTo_16U F') = rows D \<and> cols (convertTo_16U F') = cols D \<and>
        (\<forall>x y. 0 \<le> x \<and> x < cols D \<and> 0 \<le> y \<and> y < rows D \<longrightarrow> pixel (convertTo_16U F') y x \<noteq> 0)"
      using eq Inr dims by (simp add: convertTo_16U_def)
    then show ?thesis by blast
  qed
qed

section \<open>The bias feature of the least-squares predictor\<close>

lemma length_colwise_mean: "length (colwise_mean M) = 4"
  by (simp add: colwise_mean_def)

lemma bias_feature:
  "loc_sX (PredictDepth2_locals g lib D C x y eps k tau) ! 3 = 1 \<and>
   (\<forall>row \<in> set (loc_X (PredictDepth2_locals g lib D C x y eps k tau)). row ! 3 = k) \<and>
   loc_test (PredictDepth2_locals g lib D C x y eps k tau) ! 3 = max (1 / 100000) k"
  by (simp add: PredictDepth2_locals_def Let_def length_colwise_mean)

text \<open>
  C7: after normalisation \<open>\<sigma>\<^sub>X[3]\<close> is 1, column 3 of \<open>X\<close> holds \<open>max(k, 1e-5)\<close> in every
  row, and so does the fourth component of the test vector. The code fills column 3
  with \<open>k\<close> before it clamps \<open>k\<close> (\<open>bias_feature\<close>): for \<open>k < 1e-5\<close> the column holds \<open>k\<close>
  and the test vector \<open>1e-5\<close>. Evaluated at \<open>k = 0\<close> on a window of four known pixels:
\<close>

theorem bias_column_unclamped:
  "map (\<lambda>row. row ! 3)
     (loc_X (PredictDepth2_locals gdfmm5 lib0 (convertTo_32F (depth16 1 5 one_hole)) (grayImage 1 5) 2 0 1 0 0))
     = [0, 0, 0, 0] \<and>
   loc_test (PredictDepth2_locals gdfmm5 lib0 (convertTo_32F (depth16 1 5 one_hole)) (grayImage 1 5) 2 0 1 0 0) ! 3
     = 1 / 100000 \<and>
   max (1 / 100000) (0 :: float) = 1 / 100000"
proof -
  let ?L = "PredictDepth2_locals gdfmm5 lib0 (convertTo_32F (depth16 1 5 one_hole)) (grayImage 1 5) 2 0 1 0 0"
  have len: "length (loc_X ?L) = 4"
    by (simp add: PredictDepth2_locals_def Let_def known_pixels_def gdfmm5_def convertTo_32F_def
        depth16_def one_hole_def upto.simps)
  have "\<forall>row \<in> set (loc_X ?L). row ! 3 = 0" using bias_feature [of gdfmm5 lib0 _ _ 2 0 1 0 0] by blast
  then have "map (\<lambda>row. row ! 3) (loc_X ?L) = replicate (length (loc_X ?L)) 0"
    by (simp add: map_replicate_const [symmetric] cong: map_cong)
  with len have "map (\<lambda>row. row ! 3) (loc_X ?L) = [0, 0, 0, 0]" by (simp add: numeral_eq_Suc)
  then show ?thesis using bias_feature [of gdfmm5 lib0 _ _ 2 0 1 0 0] by simp
qed

section \<open>Pre-flight checks\<close>

text \<open>
  C9, as stated: a size mismatch fails with a message that names both sizes. The message
  of the code is the fixed string "Images must have same size.": it is the same for
  images of 2x2 and 3x3 pixels as for images of 4x5 and 6x7 pixels, and holds no digit.
\<close>

theorem size_message_counterexample:
  "InPaintBase gdfmm3 lib0 first_tie (depth16 2 2 one_seed) (grayImage 3 3) (PredictDepth gdfmm3) =
     Inl (runtime_error ''Images must have same size.'') \<and>
   InPaintBase gdfmm3 lib0 first_tie (depth16 4 5 one_seed) (grayImage 6 7) (PredictDepth gdfmm3) =
     Inl (runtime_error ''Images must have same size.'') \<and>
   set ''Images must have same size.'' \<inter> set ''0123456789'' = {}"
  by (simp add: InPaintBase_def depth16_def grayImage_def)

text \<open>
  C9, amended: when the RGB image and the depth image disagree in dimensions, the call
  fails before any processing with the fixed message "Images must have same size.";
  when the depth image is not single-channel, or the RGB image is not 3-channel, it
  fails before any processing with the \<^verbatim>\<open>CHECK\<close> message of the failed expression.
\<close>

theorem preflight_errors:
  "(cols C \<noteq> cols D \<or> rows C \<noteq> rows D \<longrightarrow>
      InPaintBase g lib tie D C predict = Inl (runtime_error ''Images must have same size.'')) \<and>
   (cols C = cols D \<and> rows C = rows D \<and> channels D \<noteq> 1 \<longrightarrow>
      InPaintBase g lib tie D C predict =
        Inl (CHECK ''Failed expression: depthImageOriginal.channels() == 1\<newline>'')) \<and>
   (cols C = cols D \<and> rows C = rows D \<and> channels D = 1 \<and> channels C \<noteq> 3 \<longrightarrow>
      InPaintBase g lib tie D C predict =
        Inl (CHECK ''Failed expression: rgbImage.channels() == 3\<newline>''))"
  by (simp add: InPaintBase_def)

theorem preflight_errors_witness:
  "InPaintBase gdfmm3 lib0 first_tie (depth16 2 2 one_seed) (grayImage 3 3) (PredictDepth gdfmm3) =
     Inl (runtime_error ''Images must have same size.'') \<and>
   InPaintBase gdfmm3 lib0 first_tie ((depth16 2 2 one_seed)\<lparr>channels := 3\<rparr>) (grayImage 2 2) (PredictDepth gdfmm3) =
     Inl (CHECK ''Failed expression: depthImageOriginal.channels() == 1\<newline>'') \<and>
   InPaintBase gdfmm3 lib0 first_tie (depth16 2 2 one_seed) ((grayImage 2 2)\<lparr>channels := 4\<rparr>) (PredictDepth gdfmm3) =
     Inl (CHECK ''Failed expression: rgbImage.channels() == 3\<newline>'')"
  using preflight_errors [of "grayImage 3 3" "depth16 2 2 one_seed" gdfmm3 lib0 first_tie "PredictDepth gdfmm3"]
    preflight_errors [of "grayImage 2 2" "(depth16 2 2 one_seed)\<lparr>channels := 3\<rparr>" gdfmm3 lib0 first_tie "PredictDepth gdfmm3"]
    preflight_errors [of "(grayImage 2 2)\<lparr>channels := 4\<rparr>" "depth16 2 2 one_seed" gdfmm3 lib0 first_tie "PredictDepth gdfmm3"]
  by (simp add: depth16_def grayImage_def)

section \<open>Runs on concrete inputs\<close>

lemma one_seed_predict:
  "PredictDepth gdfmm3 (convertTo_32F (depth16 1 2 one_seed)) (grayImage 1 2) 1 0 = 0"
  by code_simp

lemma one_seed_abort:
  "isl (propagate (PredictDepth gdfmm3) (grayImage 1 2)
      (rgbGradientStrength (Sobel lib0 (GaussianBlur lib0 (grayImage 1 2) (blurSigma gdfmm3) (blurSigma gdfmm3)) 1 0 3)
         (Sobel lib0 (GaussianBlur lib0 (grayImage 1 2) (blurSigma gdfmm3) (blurSigma gdfmm3)) 0 1 3) (grayImage 1 2))
      first_tie 0 (convertTo_32F (depth16 1 2 one_seed), initial_band (convertTo_32F (depth16 1 2 one_seed)))) \<and>
   projl (propagate (PredictDepth gdfmm3) (grayImage 1 2)
      (rgbGradientStrength (Sobel lib0 (GaussianBlur lib0 (grayImage 1 2) (blurSigma gdfmm3) (blurSigma gdfmm3)) 1 0 3)
         (Sobel lib0 (GaussianBlur lib0 (grayImage 1 2) (blurSigma gdfmm3) (blurSigma gdfmm3)) 0 1 3) (grayImage 1 2))
      first_tie 0 (convertTo_32F (depth16 1 2 one_seed), initial_band (convertTo_32F (depth16 1 2 one_seed))))
     = runtime_error too_few_known_values"
  by code_simp

lemma isl_projl: "isl r \<and> projl r = e \<Longrightarrow> r = Inl e"
  by (cases r) simp_all

text \<open>
  C5 on the 1x2 depth image with one known pixel, window size 3: at priority \<open>-21\<close> the
  visit of the unknown neighbour throws and so do the loop and the call; at priority 0 the
  seed is enqueued again at \<open>-1\<close>.
\<close>

theorem deferral_or_abort_witness:
  "visit (PredictDepth gdfmm3) (grayImage 1 2) (flatField 1 2) (- 21) (0, 0) (1, 0)
      (convertTo_32F (depth16 1 2 one_seed), []) = Inl (runtime_error too_few_known_values) \<and>
   visit (PredictDepth gdfmm3) (grayImage 1 2) (flatField 1 2) 0 (0, 0) (1, 0)
      (convertTo_32F (depth16 1 2 one_seed), []) =
      Inr (set_pixel (convertTo_32F (depth16 1 2 one_seed)) 0 1 0, [(- 1, (0, 0))]) \<and>
   propagate (PredictDepth gdfmm3) (grayImage 1 2) (flatField 1 2) first_tie 0
      (convertTo_32F (depth16 1 2 one_seed), [(- 21, (0, 0))]) = Inl (runtime_error too_few_known_values) \<and>
   InPaintBase gdfmm3 lib0 first_tie (depth16 1 2 one_seed) (grayImage 1 2) (PredictDepth gdfmm3) =
      Inl (runtime_error too_few_known_values)"
proof -
  let ?D = "convertTo_32F (depth16 1 2 one_seed)"
  let ?e = "runtime_error too_few_known_values"
  have dims: "cols ?D = 2" "rows ?D = 1" "pixel ?D 0 1 = 0"
    by (simp_all add: convertTo_32F_def depth16_def one_seed_def)
  have skip: "for_each (visit (PredictDepth gdfmm3) (grayImage 1 2) (flatField 1 2) (- 21) (0, 0)) [(0, 1)]
      (fst (?D, [(- 21, (0, 0))]), pq_pop (first_tie 0) (snd (?D, [(- 21 :: float, (0, 0) :: Point)]))) = Inr (?D, [])"
    by (simp add: visit_def dims pq_pop_def pq_top_def)
  have top: "pq_top (first_tie 0) (snd (?D, [(- 21 :: float, (0, 0) :: Point)])) = (- 21, (0, 0))"
    by (simp add: pq_top_def)
  have nb: "neighbours = [(0, 1)] @ (1, 0) # [(- 1, 0), (0, - 1)]"
    by (simp add: neighbours_def)
  note t1 = deferral_or_abort [where P = "(0, 0)" and d = "(1, 0)" and D = ?D and h = "[]"
      and predict = "PredictDepth gdfmm3" and rgb = "grayImage 1 2" and G = "flatField 1 2"
      and s = "- 21" and e = ?e and st = "(?D, [(- 21, (0, 0))])" and tie = first_tie and i = 0
      and ?ds1.0 = "[(0, 1)]" and ?ds2.0 = "[(- 1, 0), (0, - 1)]"
      and C = "grayImage 1 2" and ?D0.0 = "depth16 1 2 one_seed" and lib = lib0 and g = gdfmm3]
  note t2 = deferral_or_abort [where P = "(0, 0)" and d = "(1, 0)" and D = ?D and h = "[]"
      and predict = "PredictDepth gdfmm3" and rgb = "grayImage 1 2" and G = "flatField 1 2"
      and s = 0]
  have v1: "visit (PredictDepth gdfmm3) (grayImage 1 2) (flatField 1 2) (- 21) (0, 0) (1, 0) (?D, []) = Inl ?e"
    using t1 [THEN conjunct1] dims one_seed_predict by simp
  have v2: "visit (PredictDepth gdfmm3) (grayImage 1 2) (flatField 1 2) 0 (0, 0) (1, 0) (?D, []) =
      Inr (set_pixel ?D 0 1 0, [(- 1, (0, 0))])"
    using t2 [THEN conjunct1] dims one_seed_predict by (simp add: emplace_def)
  have p: "propagate (PredictDepth gdfmm3) (grayImage 1 2) (flatField 1 2) first_tie 0
      (?D, [(- 21, (0, 0))]) = Inl ?e"
    using t1 [THEN conjunct2, THEN conjunct2, THEN conjunct1] skip top nb v1 by simp
  have r: "InPaintBase gdfmm3 lib0 first_tie (depth16 1 2 one_seed) (grayImage 1 2) (PredictDepth gdfmm3) = Inl ?e"
    using t1 [THEN conjunct2, THEN conjunct2, THEN conjunct2] isl_projl [OF one_seed_abort]
    by (simp add: depth16_def grayImage_def)
  from v1 v2 p r show ?thesis by simp
qed

lemma one_hole_run:
  "\<not> isl (InPaintBase gdfmm5 lib0 first_tie (depth16 1 5 one_hole) (grayImage 1 5) (PredictDepth gdfmm5)) \<and>
   pixel (depth16 1 5 one_hole) 0 0 = 100 \<and> (0::int) < cols (depth16 1 5 one_hole) \<and> (0::int) < rows (depth16 1 5 one_hole)"
  by code_simp

text \<open>
  C2 on the 1x5 depth row \<open>100 100 0 100 100\<close>, window size 5: the call returns an image,
  and its pixel \<open>(0, 0)\<close> is still 100.
\<close>

theorem known_pixels_preserved_witness:
  "\<not> isl (InPaintBase gdfmm5 lib0 first_tie (depth16 1 5 one_hole) (grayImage 1 5) (PredictDepth gdfmm5)) \<and>
   pixel (projr (InPaintBase gdfmm5 lib0 first_tie (depth16 1 5 one_hole) (grayImage 1 5) (PredictDepth gdfmm5))) 0 0 = 100"
proof -
  let ?r = "InPaintBase gdfmm5 lib0 first_tie (depth16 1 5 one_hole) (grayImage 1 5) (PredictDepth gdfmm5)"
  from one_hole_run obtain D' where r: "?r = Inr D'" by (cases ?r) auto
  have "pixel D' 0 0 = pixel (depth16 1 5 one_hole) 0 0"
    using r by (rule known_pixels_preserved) (simp_all add: depth16_def one_hole_def)
  then show ?thesis using r by (simp add: depth16_def one_hole_def)
qed




theorem PredictDepth_is_bilateral_mean_witness:
  "PredictDepth gdfmm5 (convertTo_32F (depth16 1 5 one_hole)) (grayImage 1 5) 2 0 = 100 \<and>
   bilateral_mean gdfmm5 (convertTo_32F (depth16 1 5 one_hole)) (grayImage 1 5) 2 0 = 100 \<and>
   PredictDepth gdfmm3 (convertTo_32F (depth16 1 5 one_hole)) (grayImage 1 5) 2 0 = 0 \<and>
   bilateral_mean gdfmm3 (convertTo_32F (depth16 1 5 one_hole)) (grayImage 1 5) 2 0 = 0"
proof -
  have "bilateral_mean gdfmm5 (convertTo_32F (depth16 1 5 one_hole)) (grayImage 1 5) 2 0 = 100 \<and>
        bilateral_mean gdfmm3 (convertTo_32F (depth16 1 5 one_hole)) (grayImage 1 5) 2 0 = 0"
    by code_simp
  then show ?thesis
    using PredictDepth_is_bilateral_mean [of gdfmm5 "convertTo_32F (depth16 1 5 one_hole)" "grayImage 1 5" 2 0]
      PredictDepth_is_bilateral_mean [of gdfmm3 "convertTo_32F (depth16 1 5 one_hole)" "grayImage 1 5" 2 0]
    by simp
qed

lemma one_seed_band:
  "initial_band (convertTo_32F (depth16 1 2 one_seed)) = [(0, (0, 0))]"
  by code_simp

text \<open>
  C6 on the 1x2 image: the band is seeded with \<open>(0, (0, 0))\<close>; the first turn defers the
  seed and leaves the band \<open>[(-1, (0, 0))]\<close>, and \<open>-1\<close> is not below \<open>-1\<close>.
\<close>

theorem first_deferral_counterexample:
  "initial_band (convertTo_32F (depth16 1 2 one_seed)) = [(0, (0, 0))] \<and>
   \<not> isl (turn (PredictDepth gdfmm3) (grayImage 1 2)
      (rgbGradientStrength (flatField 1 2) (flatField 1 2) (grayImage 1 2)) (first_tie 0)
      (convertTo_32F (depth16 1 2 one_seed), initial_band (convertTo_32F (depth16 1 2 one_seed)))) \<and>
   snd (projr (turn (PredictDepth gdfmm3) (grayImage 1 2)
      (rgbGradientStrength (flatField 1 2) (flatField 1 2) (grayImage 1 2)) (first_tie 0)
      (convertTo_32F (depth16 1 2 one_seed), initial_band (convertTo_32F (depth16 1 2 one_seed)))))
     = [(- 1, (0, 0))] \<and>
   \<not> (- 1 :: float) < - 1"
  by code_simp

theorem deferred_priority_witness:
  "visit (PredictDepth gdfmm3) (grayImage 1 2)
      (rgbGradientStrength (flatField 1 2) (flatField 1 2) (grayImage 1 2)) 0 (0, 0) (1, 0)
      (convertTo_32F (depth16 1 2 one_seed), []) =
      Inr (set_pixel (convertTo_32F (depth16 1 2 one_seed)) 0 1 0, [(- 1, (0, 0))]) \<and>
   (0 :: float) - 1 \<le> - 1"
proof -
  let ?D = "convertTo_32F (depth16 1 2 one_seed)"
  let ?G = "rgbGradientStrength (flatField 1 2) (flatField 1 2) (grayImage 1 2)"
  have dims: "cols ?D = 2" "rows ?D = 1" "pixel ?D 0 1 = 0"
    by (simp_all add: convertTo_32F_def depth16_def one_seed_def)
  have r: "run (PredictDepth gdfmm3) (grayImage 1 2) ?G first_tie 0 (?D, initial_band ?D) =
      Inr (?D, initial_band ?D)" by simp
  have ne: "snd (?D, initial_band ?D) \<noteq> []" by (simp add: one_seed_band)
  have top: "pq_top (first_tie 0) (snd (?D, initial_band ?D)) = (0, (0, 0))"
    by (simp add: one_seed_band pq_top_def)
  have nb: "neighbours = [(0, 1)] @ (1, 0) # [(- 1, 0), (0, - 1)]"
    by (simp add: neighbours_def)
  have skip: "for_each (visit (PredictDepth gdfmm3) (grayImage 1 2) ?G 0 (0, 0)) [(0, 1)]
      (fst (?D, initial_band ?D), pq_pop (first_tie 0) (snd (?D, initial_band ?D))) = Inr (?D, [])"
    by (simp add: visit_def dims pq_pop_def pq_top_def one_seed_band)
  from deferred_priority [OF r ne top nb skip] dims one_seed_predict
  show ?thesis by simp
qed

text \<open>
  C1 on the 1x2 image: one pixel is known, the other is its neighbour, and the call
  throws. On the 1x5 row with window size 5 the call returns, and the hole is filled.
\<close>

theorem sparse_input_counterexample:
  "pixel (depth16 1 2 one_seed) 0 0 = 100 \<and> pixel (depth16 1 2 one_seed) 0 1 = 0 \<and>
   rows (depth16 1 2 one_seed) = 1 \<and> cols (depth16 1 2 one_seed) = 2 \<and>
   InPaint gdfmm3 lib0 first_tie (depth16 1 2 one_seed) (grayImage 1 2) =
     Inl (runtime_error too_few_known_values)"
proof -
  have "InPaintBase gdfmm3 lib0 first_tie (depth16 1 2 one_seed) (grayImage 1 2) (PredictDepth gdfmm3) =
     Inl (runtime_error too_few_known_values)"
    by (rule InPaintBase_abort [OF _ _ _ _ isl_projl [OF one_seed_abort]])
       (simp_all add: depth16_def grayImage_def)
  then show ?thesis by (simp add: InPaint_def depth16_def one_seed_def)
qed

theorem InPaint_fills_or_aborts_witness:
  "\<not> isl (InPaint gdfmm5 lib0 first_tie (depth16 1 5 one_hole) (grayImage 1 5)) \<and>
   pixel (depth16 1 5 one_hole) 0 2 = 0 \<and>
   pixel (projr (InPaint gdfmm5 lib0 first_tie (depth16 1 5 one_hole) (grayImage 1 5))) 0 2 \<noteq> 0"
proof -
  let ?r = "InPaint gdfmm5 lib0 first_tie (depth16 1 5 one_hole) (grayImage 1 5)"
  have n: "\<not> isl ?r" using one_hole_run by (simp add: InPaint_def)
  have "?r = Inl (runtime_error too_few_known_values) \<or>
         (\<exists>D'. ?r = Inr D' \<and> rows D' = rows (depth16 1 5 one_hole) \<and> cols D' = cols (depth16 1 5 one_hole) \<and>
            (\<forall>x y. 0 \<le> x \<and> x < cols (depth16 1 5 one_hole) \<and> 0 \<le> y \<and> y < rows (depth16 1 5 one_hole)
               \<longrightarrow> pixel D' y x \<noteq> 0))"
    by (rule InPaint_fills_or_aborts [where ?x0.0 = 0 and ?y0.0 = 0])
       (simp_all add: depth16_def grayImage_def one_hole_def)
  with n obtain D' where r: "?r = Inr D'"
    and f: "\<forall>x y. 0 \<le> x \<and> x < cols (depth16 1 5 one_hole) \<and> 0 \<le> y \<and> y < rows (depth16 1 5 one_hole)
               \<longrightarrow> pixel D' y x \<noteq> 0"
    by auto
  from f have "pixel D' 0 2 \<noteq> 0" by (simp add: depth16_def)
  with n r show ?thesis by (simp add: depth16_def one_hole_def)
qed

end
